theory Spec2Isabelle
  imports Main "HOL-Library.Word"
begin


section \<open>Wide strings and the string operations the shim uses\<close>

text \<open>
  A \<open>std::wstring\<close> or \<open>std::wstring_view\<close> is modelled as a list of characters.
  \<open>npos\<close> is \<open>None\<close>.
\<close>

type_synonym wstring = string

text \<open>\<open>s.find(c, pos)\<close>: the first index at or after \<open>pos\<close> that holds \<open>c\<close>.\<close>

definition find_char :: "wstring \<Rightarrow> char \<Rightarrow> nat \<Rightarrow> nat option" where
  "find_char s c pos =
     (if length (takeWhile (\<lambda>x. x \<noteq> c) (drop pos s)) < length (drop pos s)
      then Some (pos + length (takeWhile (\<lambda>x. x \<noteq> c) (drop pos s)))
      else None)"

text \<open>
  \<open>s.substr(pos, n)\<close> and \<open>s.replace(pos, n, r)\<close>. Both throw \<open>std::out_of_range\<close>
  when \<open>pos > s.size()\<close>; every call in the shim passes a position that a preceding
  \<open>find\<close> returned, so the position is in range (lemma \<open>find_char_SomeD\<close>).
\<close>

definition substr :: "wstring \<Rightarrow> nat \<Rightarrow> nat \<Rightarrow> wstring" where
  "substr s pos n = take n (drop pos s)"

definition replace :: "wstring \<Rightarrow> nat \<Rightarrow> nat \<Rightarrow> wstring \<Rightarrow> wstring" where
  "replace s pos n r = take pos s @ r @ drop (pos + n) s"

text \<open>\<open>s.c_str()\<close> read as a C string: the characters before the first NUL.\<close>

definition c_str :: "wstring \<Rightarrow> wstring" where
  "c_str s = takeWhile (\<lambda>x. x \<noteq> CHR 0x00) s"

section \<open>The process environment\<close>

text \<open>
  The environment block of the process, as \<open>_wdupenv_s\<close> reads it: a name is mapped to
  its value, or to \<open>None\<close> when the variable is not defined (or the call fails).
\<close>

type_synonym environ = "wstring \<Rightarrow> wstring option"

definition wdupenv_s :: "environ \<Rightarrow> wstring \<Rightarrow> wstring option" where
  "wdupenv_s env name = env (c_str name)"

section \<open>Placeholder expansion\<close>

definition c_envDelim :: char where
  "c_envDelim = CHR ''%''"

text \<open>
  \<open>ExpandEnvVars\<close> of the C++20 shim (src/unnamed/part_000): the \<open>while\<close> loop over
  \<open>result\<close> and \<open>searchPos\<close>.
\<close>

function ExpandEnvVars_loop :: "environ \<Rightarrow> wstring \<Rightarrow> nat \<Rightarrow> wstring" where
  "ExpandEnvVars_loop env result searchPos =
     (if searchPos < length result then
        (case find_char result c_envDelim searchPos of
           None \<Rightarrow> result
         | Some startPos \<Rightarrow>
             if startPos + 1 \<ge> length result then result
             else
               (case find_char result c_envDelim (startPos + 1) of
                  None \<Rightarrow> result
                | Some endPos \<Rightarrow>
                    (let varName = substr result (startPos + 1) (endPos - startPos - 1)
                     in if varName = [] then ExpandEnvVars_loop env result (endPos + 1)
                        else
                          (case wdupenv_s env varName of
                             Some replacement \<Rightarrow>
                               ExpandEnvVars_loop env
                                 (replace result startPos (endPos - startPos + 1) replacement)
                                 (startPos + length replacement)
                           | None \<Rightarrow> ExpandEnvVars_loop env result (endPos + 1)))))
      else result)"
  by pat_completeness auto

lemma find_char_SomeD:
  "find_char s c pos = Some i \<Longrightarrow> pos \<le> i \<and> i < length s \<and> s ! i = c"
proof -
  assume a: "find_char s c pos = Some i"
  let ?t = "drop pos s"
  let ?k = "length (takeWhile (\<lambda>x. x \<noteq> c) ?t)"
  from a have lt: "?k < length ?t" and i: "i = pos + ?k"
    by (auto simp: find_char_def split: if_splits)
  from lt have "\<not> (?t ! ?k \<noteq> c)"
    by (rule nth_length_takeWhile)
  moreover have "?t ! ?k = s ! (pos + ?k)"
    using lt by simp
  ultimately show ?thesis using lt i by auto
qed

termination ExpandEnvVars_loop
  by (relation "measure (\<lambda>(env, result, searchPos). length result - searchPos)")
     (auto simp: replace_def dest!: find_char_SomeD)

declare ExpandEnvVars_loop.simps [simp del]

definition ExpandEnvVars :: "environ \<Rightarrow> wstring \<Rightarrow> wstring" where
  "ExpandEnvVars env input = ExpandEnvVars_loop env input 0"

subsection \<open>Auxiliary notions for the properties of the scan\<close>

text \<open>
  One iteration of the loop of \<open>ExpandEnvVars\<close>: \<open>None\<close> when the loop ends
  (the condition fails or a \<open>break\<close> is taken), otherwise the next \<open>result\<close> and
  \<open>searchPos\<close>. Lemma \<open>ExpandEnvVars_loop_step\<close> relates it to the loop.
\<close>

definition ExpandEnvVars_step :: "environ \<Rightarrow> wstring \<Rightarrow> nat \<Rightarrow> (wstring \<times> nat) option" where
  "ExpandEnvVars_step env result searchPos =
     (if searchPos < length result then
        (case find_char result c_envDelim searchPos of
           None \<Rightarrow> None
         | Some startPos \<Rightarrow>
             if startPos + 1 \<ge> length result then None
             else
               (case find_char result c_envDelim (startPos + 1) of
                  None \<Rightarrow> None
                | Some endPos \<Rightarrow>
                    if substr result (startPos + 1) (endPos - startPos - 1) = [] then
                      Some (result, endPos + 1)
                    else
                      (case wdupenv_s env (substr result (startPos + 1) (endPos - startPos - 1)) of
                         Some replacement \<Rightarrow>
                           Some (replace result startPos (endPos - startPos + 1) replacement,
                             startPos + length replacement)
                       | None \<Rightarrow> Some (result, endPos + 1))))
      else None)"

text \<open>What the scan leaves in place of one \<open>%name%\<close> span.\<close>

definition placeholder_text :: "environ \<Rightarrow> wstring \<Rightarrow> wstring" where
  "placeholder_text env name =
     (if name = [] then [c_envDelim, c_envDelim]
      else case wdupenv_s env name of
             Some v \<Rightarrow> v
           | None \<Rightarrow> c_envDelim # name @ [c_envDelim])"

text \<open>The names the scan looks up: the non-empty texts between paired delimiters.\<close>

fun scan_names :: "wstring option \<Rightarrow> wstring \<Rightarrow> wstring list" where
  "scan_names st [] = []"
| "scan_names None (c # s) = (if c = c_envDelim then scan_names (Some []) s else scan_names None s)"
| "scan_names (Some acc) (c # s) =
     (if c = c_envDelim then (if acc = [] then [] else [acc]) @ scan_names None s
      else scan_names (Some (acc @ [c])) s)"

definition placeholder_names :: "wstring \<Rightarrow> wstring list" where
  "placeholder_names s = scan_names None s"


text \<open>An environment for the examples.\<close>

definition demo_env :: environ where
  "demo_env = [''A'' \<mapsto> ''x y'', ''TEMP'' \<mapsto> ''C:/Tmp'', ''USERNAME'' \<mapsto> ''kim'']"

section \<open>Characters, substring search and the directory placeholder\<close>

definition c_quote :: char where
  "c_quote = CHR 0x22"

definition c_backslash :: char where
  "c_backslash = CHR 0x5C"

definition c_newline :: char where
  "c_newline = CHR 0x0A"

definition c_return :: char where
  "c_return = CHR 0x0D"

text \<open>\<open>s.find(pat)\<close>: the index of the first occurrence of \<open>pat\<close> in \<open>s\<close>.\<close>

fun find_str :: "wstring \<Rightarrow> wstring \<Rightarrow> nat option" where
  "find_str [] pat = (if pat = [] then Some 0 else None)"
| "find_str (x # xs) pat =
     (if take (length pat) (x # xs) = pat then Some 0 else map_option Suc (find_str xs pat))"

text \<open>\<open>s.find(pat, pos)\<close>.\<close>

definition find_str_from :: "wstring \<Rightarrow> wstring \<Rightarrow> nat \<Rightarrow> nat option" where
  "find_str_from s pat pos =
     (if pos \<le> length s then map_option (\<lambda>i. pos + i) (find_str (drop pos s) pat) else None)"

text \<open>\<open>s.find_last_of(cs)\<close>: the last index that holds one of the characters \<open>cs\<close>.\<close>

definition find_last_of :: "wstring \<Rightarrow> char list \<Rightarrow> nat option" where
  "find_last_of s cs =
     (case dropWhile (\<lambda>x. x \<notin> set cs) (rev s) of
        [] \<Rightarrow> None
      | _ # front \<Rightarrow> Some (length front))"

definition c_dirPlaceholder :: wstring where
  "c_dirPlaceholder = ''%~dp0''"

definition c_pathPrefix :: wstring where
  "c_pathPrefix = ''path''"

definition c_argsPrefix :: wstring where
  "c_argsPrefix = ''args''"

definition c_separator :: wstring where
  "c_separator = '' = ''"

text \<open>\<open>GetDirectory\<close>, \<open>TrimNewline\<close> and \<open>NormalizeArgsInPlace\<close> of src/unnamed/part_000.\<close>

definition GetDirectory :: "wstring \<Rightarrow> wstring" where
  "GetDirectory exe =
     (case find_last_of exe [c_backslash, CHR ''/''] of
        Some pos \<Rightarrow> substr exe 0 pos
      | None \<Rightarrow> exe)"

definition TrimNewline :: "wstring \<Rightarrow> wstring" where
  "TrimNewline sv =
     (let sv1 = (if sv \<noteq> [] \<and> last sv = c_newline then butlast sv else sv);
          sv2 = (if sv1 \<noteq> [] \<and> last sv1 = c_return then butlast sv1 else sv1)
      in sv2)"

definition NormalizeArgsInPlace :: "wstring \<Rightarrow> wstring \<Rightarrow> wstring" where
  "NormalizeArgsInPlace args curDir =
     (case find_str args c_dirPlaceholder of
        Some pos \<Rightarrow> replace args pos (length c_dirPlaceholder) curDir
      | None \<Rightarrow> args)"

text \<open>
  \<open>GetDirectory\<close> and \<open>NormalizeArgs\<close> of src/shim.cpp. There \<open>substr(0, pos)\<close> is called
  with \<open>npos\<close> too, which keeps the whole string; \<open>NormalizeArgs\<close> works on an optional.
\<close>

definition GetDirectory_shim :: "wstring \<Rightarrow> wstring" where
  "GetDirectory_shim exe =
     (case find_last_of exe [c_backslash, CHR ''/''] of
        Some pos \<Rightarrow> substr exe 0 pos
      | None \<Rightarrow> substr exe 0 (length exe))"

definition NormalizeArgs :: "wstring option \<Rightarrow> wstring \<Rightarrow> wstring option" where
  "NormalizeArgs args curDir =
     (case args of
        None \<Rightarrow> None
      | Some a \<Rightarrow>
          (case find_str a ''%~dp0'' of
             Some pos \<Rightarrow> Some (replace a pos (length ''%~dp0'') curDir)
           | None \<Rightarrow> Some a))"

section \<open>The operating system as the shim sees it\<close>

text \<open>
  What the Win32 and C runtime calls return is given by a record of answers; what the
  shim does to the outside is kept in a state: the environment block of the process and
  the list of calls made so far. A handle is a number, \<open>0\<close> the null handle.
\<close>

type_synonym handle = nat

text \<open>
  Undefined behaviour of the C++ program: an access outside an array or a C string, and
  reading an empty \<open>std::optional\<close>.
\<close>

datatype fault = OutOfBounds | EmptyOptional

datatype errmsg =
    ErrFilenameTooLong
  | ErrCannotOpen
  | ErrCouldNotRead
  | ErrSetEnv wstring
  | ErrSetEnvValue wstring wstring
  | ErrElevated
  | ErrCreateProcess wstring
  | ErrExeType
  | ErrCtrlHandler

datatype event =
    Stderr errmsg
  | EvPutEnv wstring wstring
  | EvCreateProcessW wstring
  | EvResumeThread handle
  | EvShellExecuteExW wstring wstring
  | EvSetConsoleCtrlHandler
  | EvFreeConsole
  | EvCreateJobObject
  | EvSetInformationJobObject handle
  | EvAssignProcessToJobObject handle handle
  | EvWaitForSingleObject handle
  | EvGetExitCodeProcess handle

record os_api =
  os_modulePath :: wstring
  os_wfopen_s :: "wstring \<Rightarrow> wstring option"
  os_wputenv_s :: "wstring \<Rightarrow> wstring \<Rightarrow> environ \<Rightarrow> environ option"
  os_commandLine :: wstring
  os_argv0 :: wstring
  os_PathUnquoteSpacesW :: "wstring \<Rightarrow> wstring"
  os_SHGetFileInfoW :: "wstring \<Rightarrow> 64 word"
  os_CreateJobObjectW :: handle
  os_CreateProcessW :: "wstring \<Rightarrow> environ \<Rightarrow> 32 word + handle \<times> handle"
  os_ShellExecuteExW :: "wstring \<Rightarrow> wstring \<Rightarrow> handle option"
  os_SetConsoleCtrlHandler :: bool
  os_GetExitCodeProcess :: "handle \<Rightarrow> 32 word option"

text \<open>
  \<^item> \<open>os_modulePath\<close>: the full path of the running executable (empty when
    \<open>GetModuleFileNameW\<close> fails).
  \<^item> \<open>os_wfopen_s\<close>: the text of the file as the stream opened with
    \<open>"r,ccs=UTF-8"\<close> delivers it, \<open>None\<close> when the file cannot be opened.
  \<^item> \<open>os_wputenv_s\<close>: the environment after \<open>_wputenv_s(name, value)\<close>, \<open>None\<close>
    when the call returns an error.
  \<^item> \<open>os_commandLine\<close>, \<open>os_argv0\<close>: \<open>GetCommandLineW()\<close> and \<open>argv[0]\<close>.
  \<^item> \<open>os_SHGetFileInfoW\<close>: the value returned for \<open>SHGFI_EXETYPE\<close>.
  \<^item> \<open>os_CreateProcessW\<close>: \<open>Inr (hProcess, hThread)\<close> on success, \<open>Inl\<close> the
    value of \<open>GetLastError()\<close> otherwise.
  \<^item> \<open>os_ShellExecuteExW\<close>: \<open>Some hProcess\<close> when the call returns true.
  \<^item> \<open>os_GetExitCodeProcess\<close>: the exit code written by the call, \<open>None\<close> when the
    call fails and writes nothing.
\<close>

record state =
  env_block :: environ
  trace :: "event list"

definition log_event :: "event \<Rightarrow> state \<Rightarrow> state" where
  "log_event e st = st\<lparr>trace := trace st @ [e]\<rparr>"

definition MAX_PATH :: nat where
  "MAX_PATH = 260"

definition ERROR_ELEVATION_REQUIRED :: "32 word" where
  "ERROR_ELEVATION_REQUIRED = 740"

text \<open>
  \<open>GetModuleFileNameW(nullptr, filename, nSize)\<close>: the buffer and the returned size. A
  path that does not fit is truncated and \<open>nSize\<close> is returned.
\<close>

definition GetModuleFileNameW :: "os_api \<Rightarrow> nat \<Rightarrow> wstring \<times> nat" where
  "GetModuleFileNameW os nSize =
     (if length (os_modulePath os) < nSize then (os_modulePath os, length (os_modulePath os))
      else (take (nSize - 1) (os_modulePath os), nSize))"

text \<open>\<open>HIWORD\<close> of windows.h on a \<open>DWORD_PTR\<close>.\<close>

definition HIWORD :: "64 word \<Rightarrow> 16 word" where
  "HIWORD x = ucast (take_bit 16 (drop_bit 16 x))"

text \<open>
  \<open>fgetws(buf, n, fp)\<close> on the rest of the stream: the characters stored in the buffer
  (at most \<open>n - 1\<close>, ending after the first newline) and what is left of the stream;
  \<open>None\<close> at the end of the file.
\<close>

fun read_line :: "nat \<Rightarrow> wstring \<Rightarrow> wstring \<times> wstring" where
  "read_line n [] = ([], [])"
| "read_line n (c # s) =
     (if n = 0 then ([], c # s)
      else if c = c_newline then ([c], s)
      else (case read_line (n - 1) s of (l, r) \<Rightarrow> (c # l, r)))"

definition fgetws :: "nat \<Rightarrow> wstring \<Rightarrow> (wstring \<times> wstring) option" where
  "fgetws n stream = (if stream = [] then None else Some (read_line (n - 1) stream))"

definition linebuf_size :: nat where
  "linebuf_size = 2 ^ 14"

lemma read_line_consumes:
  "0 < n \<Longrightarrow> s \<noteq> [] \<Longrightarrow> length (snd (read_line n s)) < length s"
proof (induction s arbitrary: n)
  case Nil
  then show ?case by simp
next
  case (Cons c s)
  show ?case
  proof (cases "c = c_newline \<or> s = [] \<or> n = 1")
    case True
    with Cons.prems show ?thesis
      by (cases s) (auto split: prod.splits)
  next
    case False
    with Cons.IH [of "n - 1"] Cons.prems show ?thesis
      by (auto split: prod.splits)
  qed
qed

lemma fgetws_consumes:
  "fgetws linebuf_size stream = Some (linebuf, rest) \<Longrightarrow> length rest < length stream"
  using read_line_consumes [of "linebuf_size - 1" stream]
  by (auto simp: fgetws_def linebuf_size_def split: if_splits)

section \<open>The C++20 shim (src/unnamed/part_000)\<close>

record ShimInfo =
  path :: "wstring option"
  args :: "wstring option"
  envVars :: "(wstring \<times> wstring) list"

definition empty_ShimInfo :: ShimInfo where
  "empty_ShimInfo = \<lparr>path = None, args = None, envVars = []\<rparr>"

subsection \<open>\<open>GetShimInfo\<close>\<close>

text \<open>
  The body of the \<open>while\<close> loop of \<open>GetShimInfo\<close> for one filled line buffer.
  \<open>std::wstring_view line(linebuf.data())\<close> reads the buffer as a C string.
\<close>

definition parse_line_part0 :: "environ \<Rightarrow> wstring \<Rightarrow> wstring \<Rightarrow> ShimInfo \<Rightarrow> ShimInfo" where
  "parse_line_part0 env curDir linebuf info =
     (let line = TrimNewline (c_str linebuf) in
      case find_str line c_separator of
        None \<Rightarrow> info
      | Some sepPos \<Rightarrow>
          (let name = substr line 0 sepPos;
               vl = drop (sepPos + length c_separator) line
           in if name = [] then info
              else if name = c_pathPrefix then
                (let expandedPath = ExpandEnvVars env vl
                 in if find_char expandedPath CHR '' '' 0 \<noteq> None
                       \<and> (expandedPath = [] \<or> hd expandedPath \<noteq> c_quote)
                    then info\<lparr>path := Some (c_quote # expandedPath @ [c_quote])\<rparr>
                    else info\<lparr>path := Some expandedPath\<rparr>)
              else if name = c_argsPrefix then
                info\<lparr>args := Some (NormalizeArgsInPlace vl curDir)\<rparr>
              else info\<lparr>envVars := envVars info @ [(name, ExpandEnvVars env vl)]\<rparr>))"

function GetShimInfo_loop_part0 ::
  "environ \<Rightarrow> wstring \<Rightarrow> wstring \<Rightarrow> ShimInfo \<Rightarrow> ShimInfo" where
  "GetShimInfo_loop_part0 env curDir stream info =
     (case fgetws linebuf_size stream of
        None \<Rightarrow> info
      | Some (linebuf, rest) \<Rightarrow>
          GetShimInfo_loop_part0 env curDir rest (parse_line_part0 env curDir linebuf info))"
  by pat_completeness auto
termination
  by (relation "measure (\<lambda>(env, curDir, stream, info). length stream)")
     (auto dest: fgetws_consumes)

declare GetShimInfo_loop_part0.simps [simp del]

text \<open>
  \<open>wmemcpy(filename.data() + filenameSize - 3, L"shim", 4)\<close> and the terminator at
  \<open>filenameSize + 1\<close>: the buffer then holds the path with its last three characters
  replaced by \<open>shim\<close>. With \<open>filenameSize < 3\<close> the destination lies before the
  array.
\<close>

definition shim_file_name :: "wstring \<Rightarrow> nat \<Rightarrow> wstring" where
  "shim_file_name filename filenameSize = take (filenameSize - 3) filename @ ''shim''"

definition GetShimInfo_part0 :: "os_api \<Rightarrow> state \<Rightarrow> fault + ShimInfo \<times> state" where
  "GetShimInfo_part0 os st =
     (case GetModuleFileNameW os MAX_PATH of
        (filename, filenameSize) \<Rightarrow>
          if filenameSize \<ge> MAX_PATH then
            Inr (empty_ShimInfo, log_event (Stderr ErrFilenameTooLong) st)
          else if filenameSize < 3 then Inl OutOfBounds
          else
            (case os_wfopen_s os (shim_file_name filename filenameSize) of
               None \<Rightarrow> Inr (empty_ShimInfo, log_event (Stderr ErrCannotOpen) st)
             | Some stream \<Rightarrow>
                 (let curDir = GetDirectory (take filenameSize (shim_file_name filename filenameSize))
                  in Inr (GetShimInfo_loop_part0 (env_block st) curDir stream empty_ShimInfo, st))))"

subsection \<open>\<open>MakeProcess\<close>\<close>

text \<open>The \<open>for\<close> loop over \<open>info.envVars\<close> that calls \<open>_wputenv_s\<close>.\<close>

fun putenv_all_part0 :: "os_api \<Rightarrow> (wstring \<times> wstring) list \<Rightarrow> state \<Rightarrow> state" where
  "putenv_all_part0 os [] st = st"
| "putenv_all_part0 os ((name, vl) # rest) st =
     (case os_wputenv_s os name vl (env_block st) of
        Some env' \<Rightarrow>
          putenv_all_part0 os rest (log_event (EvPutEnv name vl) (st\<lparr>env_block := env'\<rparr>))
      | None \<Rightarrow>
          putenv_all_part0 os rest
            (log_event (Stderr (ErrSetEnv name)) (log_event (EvPutEnv name vl) st)))"

text \<open>The result is the pair \<open>(process, thread)\<close> of \<open>ProcessResult\<close>.\<close>

definition MakeProcess_part0 :: "os_api \<Rightarrow> ShimInfo \<Rightarrow> state \<Rightarrow> (handle \<times> handle) \<times> state" where
  "MakeProcess_part0 os info st =
     (case path info of
        None \<Rightarrow> ((0, 0), st)
      | Some p \<Rightarrow>
          (let st1 = putenv_all_part0 os (envVars info) st;
               a = (case args info of Some a \<Rightarrow> a | None \<Rightarrow> []);
               cmd = p @ CHR '' '' # a;
               st2 = log_event (EvCreateProcessW cmd) st1
           in case os_CreateProcessW os cmd (env_block st1) of
                Inr (hProcess, hThread) \<Rightarrow>
                  ((hProcess, hThread),
                   log_event EvSetConsoleCtrlHandler (log_event (EvResumeThread hThread) st2))
              | Inl err \<Rightarrow>
                  if err = ERROR_ELEVATION_REQUIRED then
                    (let st3 = log_event (EvShellExecuteExW p a) st2
                     in case os_ShellExecuteExW os p a of
                          None \<Rightarrow> ((0, 0), log_event (Stderr ErrElevated) st3)
                        | Some hProcess \<Rightarrow>
                            ((hProcess, 0), log_event EvSetConsoleCtrlHandler st3))
                  else ((0, 0), log_event (Stderr (ErrCreateProcess cmd)) st2)))"

subsection \<open>\<open>wmain\<close>\<close>

text \<open>
  The argument tail: \<open>cmd + argv0Len + 2\<close> when the command line starts with a quote,
  \<open>cmd + argv0Len\<close> otherwise, appended to \<open>info.args\<close>. A pointer past the terminator
  of the command line is outside the string.
\<close>

definition append_command_tail :: "wstring \<Rightarrow> wstring \<Rightarrow> wstring \<Rightarrow> fault + wstring" where
  "append_command_tail a cmd argv0 =
     (let argv0Len = length argv0;
          skip = (if cmd \<noteq> [] \<and> hd cmd = c_quote then argv0Len + 2 else argv0Len)
      in if skip \<le> length cmd then Inr (a @ drop skip cmd) else Inl OutOfBounds)"

text \<open>The query for the executable type, on the unquoted copy of the path.\<close>

definition exeType_part0 :: "os_api \<Rightarrow> wstring \<Rightarrow> 64 word" where
  "exeType_part0 os p =
     os_SHGetFileInfoW os (os_PathUnquoteSpacesW os (take (min (length p) (MAX_PATH - 1)) p))"

text \<open>
  The part of \<open>wmain\<close> between the argument tail and \<open>MakeProcess\<close>: the warning when
  the query fails, \<open>isWindowsApp\<close>, \<open>FreeConsole\<close> and the job object. It yields
  \<open>isWindowsApp\<close>, \<open>jobHandle\<close> and the state.
\<close>

definition wmain_setup_part0 :: "os_api \<Rightarrow> wstring \<Rightarrow> state \<Rightarrow> bool \<times> handle \<times> state" where
  "wmain_setup_part0 os p st1 =
     (let exeType = exeType_part0 os p;
          st2 = (if exeType = 0 then log_event (Stderr ErrExeType) st1 else st1);
          isWindowsApp = (HIWORD exeType \<noteq> 0);
          st3 = (if isWindowsApp then log_event EvFreeConsole st2 else st2);
          jobHandle = os_CreateJobObjectW os;
          st4 = log_event EvCreateJobObject st3;
          st5 = (if jobHandle \<noteq> 0
                 then log_event (EvSetInformationJobObject jobHandle) st4 else st4)
      in (isWindowsApp, jobHandle, st5))"

text \<open>The end of \<open>wmain\<close>, after a process handle was obtained.\<close>

definition wmain_wait_part0 :: "os_api \<Rightarrow> handle \<Rightarrow> handle \<Rightarrow> state \<Rightarrow> int \<times> state" where
  "wmain_wait_part0 os jobHandle processHandle st6 =
     (let st7 = log_event (EvAssignProcessToJobObject jobHandle processHandle) st6;
          st8 = log_event (EvWaitForSingleObject processHandle) st7;
          st9 = log_event (EvGetExitCodeProcess processHandle) st8;
          exitCode = (case os_GetExitCodeProcess os processHandle of
                        Some c \<Rightarrow> c | None \<Rightarrow> 1)
      in (sint exitCode, st9))"

definition wmain_part0 :: "os_api \<Rightarrow> state \<Rightarrow> fault + int \<times> state" where
  "wmain_part0 os st0 =
     (case GetShimInfo_part0 os st0 of
        Inl f \<Rightarrow> Inl f
      | Inr (info0, st1) \<Rightarrow>
          (case path info0 of
             None \<Rightarrow> Inr (1, log_event (Stderr ErrCouldNotRead) st1)
           | Some p \<Rightarrow>
               (case append_command_tail (case args info0 of Some a \<Rightarrow> a | None \<Rightarrow> [])
                       (os_commandLine os) (os_argv0 os) of
                  Inl f \<Rightarrow> Inl f
                | Inr a \<Rightarrow>
                    (case wmain_setup_part0 os p st1 of
                       (isWindowsApp, jobHandle, st5) \<Rightarrow>
                         (case MakeProcess_part0 os (info0\<lparr>args := Some a\<rparr>) st5 of
                            ((processHandle, threadHandle), st6) \<Rightarrow>
                              if processHandle = 0 then Inr (1, st6)
                              else Inr (wmain_wait_part0 os jobHandle processHandle st6))))))"

text \<open>The exit code of the process is the value \<open>wmain\<close> returns, as a \<open>DWORD\<close>.\<close>

definition process_exit_code :: "int \<Rightarrow> 32 word" where
  "process_exit_code r = word_of_int r"

section \<open>The shim of src/shim.cpp\<close>

subsection \<open>\<open>GetVariableValue\<close> and \<open>NormalizeVariable\<close>\<close>

definition GetVariableValue :: "environ \<Rightarrow> wstring \<Rightarrow> wstring" where
  "GetVariableValue env name = (case wdupenv_s env name of None \<Rightarrow> [] | Some v \<Rightarrow> v)"

definition s_startDelim :: wstring where
  "s_startDelim = ''%''"

definition s_endDelim :: wstring where
  "s_endDelim = ''%''"

lemma find_str_SomeD: "find_str s pat = Some i \<Longrightarrow> i + length pat \<le> length s"
proof (induction s arbitrary: i)
  case Nil
  then show ?case by (simp split: if_splits)
next
  case (Cons x xs)
  show ?case
  proof (cases "take (length pat) (x # xs) = pat")
    case True
    then have "length (take (length pat) (x # xs)) = length pat"
      by (rule arg_cong)
    then have "length pat \<le> length (x # xs)"
      by simp
    with True Cons.prems show ?thesis by simp
  next
    case False
    with Cons.prems obtain j where "find_str xs pat = Some j" "i = Suc j"
      by auto
    with Cons.IH [of j] show ?thesis by simp
  qed
qed

lemma find_str_from_SomeD:
  "find_str_from s pat pos = Some i \<Longrightarrow> pos \<le> i \<and> i + length pat \<le> length s"
  by (auto simp: find_str_from_def split: if_splits dest!: find_str_SomeD)

function NormalizeVariable_loop :: "environ \<Rightarrow> wstring \<Rightarrow> nat \<Rightarrow> wstring" where
  "NormalizeVariable_loop env str searchPos =
     (if searchPos < length str then
        (case find_str_from str s_startDelim searchPos of
           None \<Rightarrow> str
         | Some startPos \<Rightarrow>
             if startPos + length s_startDelim \<ge> length str then str
             else
               (case find_str_from str s_endDelim (startPos + length s_startDelim) of
                  None \<Rightarrow> str
                | Some endPos \<Rightarrow>
                    (let name = substr str (startPos + length s_startDelim)
                                  (endPos - startPos - length s_startDelim);
                         vl = GetVariableValue env name
                     in NormalizeVariable_loop env
                          (replace str startPos (endPos + length s_endDelim - startPos) vl)
                          (startPos + length vl))))
      else str)"
  by pat_completeness auto
termination
  by (relation "measure (\<lambda>(env, str, searchPos). length str - searchPos)")
     (auto simp: replace_def s_startDelim_def s_endDelim_def dest!: find_str_from_SomeD)

declare NormalizeVariable_loop.simps [simp del]

definition NormalizeVariable :: "environ \<Rightarrow> wstring \<Rightarrow> wstring" where
  "NormalizeVariable env var = NormalizeVariable_loop env var 0"

subsection \<open>\<open>GetShimInfo\<close>\<close>

text \<open>
  The loop body of \<open>GetShimInfo\<close> in src/shim.cpp. Its third field is called \<open>vars\<close>
  there; the record field \<open>envVars\<close> stands for it.
\<close>

definition parse_line_shim :: "environ \<Rightarrow> wstring \<Rightarrow> ShimInfo \<Rightarrow> ShimInfo" where
  "parse_line_shim env linebuf info =
     (let line = c_str linebuf in
      case find_str line '' = '' of
        None \<Rightarrow> info
      | Some pos \<Rightarrow>
          (let name = substr line 0 pos;
               vl = substr line (pos + 3)
                       (length line - pos - 3 - (if last line = c_newline then 1 else 0))
           in if name = ''path'' then
                (if find_str vl '' '' \<noteq> None \<and> hd vl \<noteq> c_quote
                 then info\<lparr>path := Some (c_quote # vl @ [c_quote])\<rparr>
                 else info\<lparr>path := Some vl\<rparr>)
              else if name = ''args'' then info\<lparr>args := Some vl\<rparr>
              else if name \<noteq> [] then
                info\<lparr>envVars := envVars info @ [(name, NormalizeVariable env vl)]\<rparr>
              else info))"

function GetShimInfo_loop_shim :: "environ \<Rightarrow> wstring \<Rightarrow> ShimInfo \<Rightarrow> ShimInfo" where
  "GetShimInfo_loop_shim env stream info =
     (case fgetws linebuf_size stream of
        None \<Rightarrow> info
      | Some (linebuf, rest) \<Rightarrow>
          GetShimInfo_loop_shim env rest (parse_line_shim env linebuf info))"
  by pat_completeness auto
termination
  by (relation "measure (\<lambda>(env, stream, info). length stream)")
     (auto dest: fgetws_consumes)

declare GetShimInfo_loop_shim.simps [simp del]

definition GetShimInfo_shim :: "os_api \<Rightarrow> state \<Rightarrow> fault + ShimInfo \<times> state" where
  "GetShimInfo_shim os st =
     (case GetModuleFileNameW os MAX_PATH of
        (filename, filenameSize) \<Rightarrow>
          if filenameSize \<ge> MAX_PATH then
            Inr (\<lparr>path = None, args = None, envVars = []\<rparr>,
                 log_event (Stderr ErrFilenameTooLong) st)
          else if filenameSize < 3 then Inl OutOfBounds
          else
            (case os_wfopen_s os (shim_file_name filename filenameSize) of
               None \<Rightarrow>
                 Inr (\<lparr>path = None, args = None, envVars = []\<rparr>,
                      log_event (Stderr ErrCannotOpen) st)
             | Some stream \<Rightarrow>
                 (let info = GetShimInfo_loop_shim (env_block st) stream
                               \<lparr>path = None, args = None, envVars = []\<rparr>
                  in Inr (\<lparr>path = path info,
                           args = NormalizeArgs (args info)
                                    (GetDirectory_shim (shim_file_name filename filenameSize)),
                           envVars = envVars info\<rparr>, st))))"

subsection \<open>\<open>MakeProcess\<close>\<close>

fun putenv_all_shim :: "os_api \<Rightarrow> (wstring \<times> wstring) list \<Rightarrow> state \<Rightarrow> state" where
  "putenv_all_shim os [] st = st"
| "putenv_all_shim os ((name, vl) # rest) st =
     (case os_wputenv_s os name vl (env_block st) of
        Some env' \<Rightarrow>
          putenv_all_shim os rest (log_event (EvPutEnv name vl) (st\<lparr>env_block := env'\<rparr>))
      | None \<Rightarrow>
          putenv_all_shim os rest
            (log_event (Stderr (ErrSetEnvValue name vl)) (log_event (EvPutEnv name vl) st)))"

text \<open>
  \<open>path->size()\<close> and \<open>args->size()\<close> dereference the optionals without a check; the
  result is the pair \<open>(processHandle, threadHandle)\<close>.
\<close>

definition MakeProcess_shim ::
  "os_api \<Rightarrow> ShimInfo \<Rightarrow> state \<Rightarrow> fault + (handle \<times> handle) \<times> state" where
  "MakeProcess_shim os info st =
     (case (path info, args info) of
        (Some p, Some a) \<Rightarrow>
          (let cmd = p @ CHR '' '' # a;
               st1 = putenv_all_shim os (envVars info) st;
               st2 = log_event (EvCreateProcessW cmd) st1;
               ctrl = (\<lambda>s. if os_SetConsoleCtrlHandler os
                           then log_event EvSetConsoleCtrlHandler s
                           else log_event (Stderr ErrCtrlHandler)
                                  (log_event EvSetConsoleCtrlHandler s))
           in case os_CreateProcessW os cmd (env_block st1) of
                Inr (hProcess, hThread) \<Rightarrow>
                  Inr ((hProcess, hThread), ctrl (log_event (EvResumeThread hThread) st2))
              | Inl err \<Rightarrow>
                  if err = ERROR_ELEVATION_REQUIRED then
                    (let st3 = log_event (EvShellExecuteExW p a) st2
                     in case os_ShellExecuteExW os p a of
                          None \<Rightarrow> Inr ((0, 0), log_event (Stderr ErrElevated) st3)
                        | Some hProcess \<Rightarrow> Inr ((hProcess, 0), ctrl st3))
                  else Inr ((0, 0), log_event (Stderr (ErrCreateProcess cmd)) st2))
      | _ \<Rightarrow> Inl EmptyOptional)"

subsection \<open>\<open>wmain\<close>\<close>

text \<open>
  \<open>wmemcpy(unquotedPath, path->c_str(), path->length())\<close> into an array of \<open>MAX_PATH\<close>
  zeroed characters: a path of \<open>MAX_PATH\<close> characters or more overruns the array or
  leaves it without a terminator.
\<close>

definition exeType_shim :: "os_api \<Rightarrow> wstring \<Rightarrow> fault + 64 word" where
  "exeType_shim os p =
     (if length p < MAX_PATH then Inr (os_SHGetFileInfoW os (os_PathUnquoteSpacesW os p))
      else Inl OutOfBounds)"

definition wmain_setup_shim :: "os_api \<Rightarrow> 64 word \<Rightarrow> state \<Rightarrow> bool \<times> handle \<times> state" where
  "wmain_setup_shim os ret st1 =
     (let st2 = (if ret = 0 then log_event (Stderr ErrExeType) st1 else st1);
          isWindowsApp = (HIWORD ret \<noteq> 0);
          st3 = (if isWindowsApp then log_event EvFreeConsole st2 else st2);
          jobHandle = os_CreateJobObjectW os;
          st4 = log_event EvCreateJobObject st3;
          st5 = log_event (EvSetInformationJobObject jobHandle) st4
      in (isWindowsApp, jobHandle, st5))"

definition wmain_wait_shim :: "os_api \<Rightarrow> handle \<Rightarrow> handle \<Rightarrow> state \<Rightarrow> int \<times> state" where
  "wmain_wait_shim os jobHandle processHandle st6 =
     (let st7 = log_event (EvAssignProcessToJobObject jobHandle processHandle) st6;
          st8 = log_event (EvWaitForSingleObject processHandle) st7;
          st9 = log_event (EvGetExitCodeProcess processHandle) st8;
          exitCode = (case os_GetExitCodeProcess os processHandle of
                        Some c \<Rightarrow> c | None \<Rightarrow> 0)
      in (sint exitCode, st9))"

definition wmain_shim :: "os_api \<Rightarrow> state \<Rightarrow> fault + int \<times> state" where
  "wmain_shim os st0 =
     (case GetShimInfo_shim os st0 of
        Inl f \<Rightarrow> Inl f
      | Inr (info0, st1) \<Rightarrow>
          (case path info0 of
             None \<Rightarrow> Inr (1, log_event (Stderr ErrCouldNotRead) st1)
           | Some p \<Rightarrow>
               (case append_command_tail (case args info0 of Some a \<Rightarrow> a | None \<Rightarrow> [])
                       (os_commandLine os) (os_argv0 os) of
                  Inl f \<Rightarrow> Inl f
                | Inr a \<Rightarrow>
                    (case exeType_shim os p of
                       Inl f \<Rightarrow> Inl f
                     | Inr ret \<Rightarrow>
                         (case wmain_setup_shim os ret st1 of
                            (isWindowsApp, jobHandle, st5) \<Rightarrow>
                              (case MakeProcess_shim os (info0\<lparr>args := Some a\<rparr>) st5 of
                                 Inl f \<Rightarrow> Inl f
                               | Inr ((processHandle, threadHandle), st6) \<Rightarrow>
                                   if processHandle \<noteq> 0 \<and> \<not> isWindowsApp then
                                     Inr (wmain_wait_shim os jobHandle processHandle st6)
                                   else Inr (if processHandle \<noteq> 0 then 0 else 1, st6)))))))"

section \<open>A concrete system for the examples\<close>

definition demo_shim_text :: wstring where
  "demo_shim_text =
     ''path = %TEMP%/my tool.exe'' @ [c_newline] @
     ''args = --base %~dp0 --again %~dp0'' @ [c_newline] @
     ''FOO = bar'' @ [c_newline] @
     ''BAZ = %FOO%-%USERNAME%'' @ [c_newline]"

definition demo_unquote :: "wstring \<Rightarrow> wstring" where
  "demo_unquote s =
     (if s \<noteq> [] \<and> hd s = c_quote
      then (if tl s \<noteq> [] \<and> last (tl s) = c_quote then butlast (tl s) else tl s)
      else s)"

definition demo_putenv :: "wstring \<Rightarrow> wstring \<Rightarrow> environ \<Rightarrow> environ option" where
  "demo_putenv name vl env =
     (if name = [] then None
      else if vl = [] then Some (env(name := None))
      else Some (env(name \<mapsto> vl)))"

definition demo_os :: os_api where
  "demo_os =
     \<lparr>os_modulePath = ''C:/apps/tool.exe'',
      os_wfopen_s = (\<lambda>f. if f = ''C:/apps/tool.shim'' then Some demo_shim_text else None),
      os_wputenv_s = demo_putenv,
      os_commandLine = c_quote # ''C:/apps/tool'' @ c_quote # '' '' @ c_quote # ''an arg'' @ c_quote # ''  x'',
      os_argv0 = ''C:/apps/tool'',
      os_PathUnquoteSpacesW = demo_unquote,
      os_SHGetFileInfoW = (\<lambda>p. if p = ''C:/Tmp/my tool.exe'' then 0x4550 else 0),
      os_CreateJobObjectW = 7,
      os_CreateProcessW = (\<lambda>cmd env. Inr (11, 12)),
      os_ShellExecuteExW = (\<lambda>p a. None),
      os_SetConsoleCtrlHandler = True,
      os_GetExitCodeProcess = (\<lambda>h. if h = 11 then Some 3 else None)\<rparr>"

definition demo_state :: state where
  "demo_state = \<lparr>env_block = demo_env, trace = []\<rparr>"

text \<open>The result of a run with the list of calls it made (states hold functions).\<close>

definition observe :: "fault + 'a \<times> state \<Rightarrow> fault + 'a \<times> event list" where
  "observe r = (case r of Inl f \<Rightarrow> Inl f | Inr (x, st) \<Rightarrow> Inr (x, trace st))"

text \<open>What the two shims read from \<open>demo_shim_text\<close> in \<open>demo_state\<close>.\<close>

definition demo_info_part0 :: ShimInfo where
  "demo_info_part0 =
     \<lparr>path = Some (c_quote # ''C:/Tmp/my tool.exe'' @ [c_quote]),
      args = Some ''--base C:/apps --again %~dp0'',
      envVars = [(''FOO'', ''bar''), (''BAZ'', ''%FOO%-kim'')]\<rparr>"

definition demo_info_shim :: ShimInfo where
  "demo_info_shim =
     \<lparr>path = Some (c_quote # ''%TEMP%/my tool.exe'' @ [c_quote]),
      args = Some ''--base C:/apps --again %~dp0'',
      envVars = [(''FOO'', ''bar''), (''BAZ'', ''-kim'')]\<rparr>"

text \<open>A variant of \<open>demo_os\<close> whose target is a windowed application.\<close>

definition demo_gui_os :: os_api where
  "demo_gui_os = demo_os\<lparr>os_SHGetFileInfoW := (\<lambda>p. 0x00044550)\<rparr>"

text \<open>
  A variant of \<open>demo_os\<close> started with a command line whose leading quote is never
  closed: the whole of it names the program.
\<close>

definition demo_cut_os :: os_api where
  "demo_cut_os = demo_os\<lparr>os_commandLine := c_quote # ''C:/apps/tool''\<rparr>"

section \<open>Notions used to state the properties\<close>

text \<open>Kinds of calls in a trace.\<close>

definition is_wait :: "event \<Rightarrow> bool" where
  "is_wait e = (case e of EvWaitForSingleObject h \<Rightarrow> True | _ \<Rightarrow> False)"

definition is_putenv :: "event \<Rightarrow> bool" where
  "is_putenv e = (case e of EvPutEnv n v \<Rightarrow> True | _ \<Rightarrow> False)"

definition is_create :: "event \<Rightarrow> bool" where
  "is_create e =
     (case e of EvCreateProcessW c \<Rightarrow> True | EvShellExecuteExW p a \<Rightarrow> True | _ \<Rightarrow> False)"

text \<open>The line buffers that the successive calls of \<open>fgetws\<close> fill from a stream.\<close>

function stream_lines :: "wstring \<Rightarrow> wstring list" where
  "stream_lines stream =
     (case fgetws linebuf_size stream of
        None \<Rightarrow> []
      | Some (linebuf, rest) \<Rightarrow> linebuf # stream_lines rest)"
  by pat_completeness auto
termination
  by (relation "measure length") (auto dest: fgetws_consumes)

declare stream_lines.simps [simp del]

text \<open>
  The name and the raw value of a line buffer that assigns a custom variable, as
  \<open>GetShimInfo\<close> of part_000 splits it (\<open>None\<close> for every other line), and the same for
  src/shim.cpp.
\<close>

definition custom_assignment_part0 :: "wstring \<Rightarrow> (wstring \<times> wstring) option" where
  "custom_assignment_part0 linebuf =
     (case find_str (TrimNewline (c_str linebuf)) c_separator of
        None \<Rightarrow> None
      | Some sepPos \<Rightarrow>
          if substr (TrimNewline (c_str linebuf)) 0 sepPos \<in> {[], c_pathPrefix, c_argsPrefix}
          then None
          else Some (substr (TrimNewline (c_str linebuf)) 0 sepPos,
                     drop (sepPos + length c_separator) (TrimNewline (c_str linebuf))))"


text \<open>The environment after one call of \<open>_wputenv_s\<close>, whether it succeeds or not.\<close>

definition apply_putenv :: "os_api \<Rightarrow> wstring \<times> wstring \<Rightarrow> environ \<Rightarrow> environ" where
  "apply_putenv os nv env =
     (case os_wputenv_s os (fst nv) (snd nv) env of Some env' \<Rightarrow> env' | None \<Rightarrow> env)"

text \<open>
  One iteration of the loop of \<open>NormalizeVariable\<close>, with the one-character delimiters
  searched as characters (lemma \<open>NormalizeVariable_loop_step\<close> relates it to the loop).
\<close>

definition NormalizeVariable_step :: "environ \<Rightarrow> wstring \<Rightarrow> nat \<Rightarrow> (wstring \<times> nat) option" where
  "NormalizeVariable_step env str searchPos =
     (if searchPos < length str then
        (case find_char str c_envDelim searchPos of
           None \<Rightarrow> None
         | Some startPos \<Rightarrow>
             if startPos + 1 \<ge> length str then None
             else
               (case find_char str c_envDelim (startPos + 1) of
                  None \<Rightarrow> None
                | Some endPos \<Rightarrow>
                    Some (replace str startPos (endPos + 1 - startPos)
                            (GetVariableValue env (substr str (startPos + 1) (endPos - startPos - 1))),
                          startPos + length
                            (GetVariableValue env (substr str (startPos + 1) (endPos - startPos - 1))))))
      else None)"


text \<open>All the texts between paired delimiters, the empty ones included.\<close>

fun scan_all_names :: "wstring option \<Rightarrow> wstring \<Rightarrow> wstring list" where
  "scan_all_names st [] = []"
| "scan_all_names None (c # s) =
     (if c = c_envDelim then scan_all_names (Some []) s else scan_all_names None s)"
| "scan_all_names (Some acc) (c # s) =
     (if c = c_envDelim then acc # scan_all_names None s
      else scan_all_names (Some (acc @ [c])) s)"

text \<open>
  The raw value of a line buffer that is a \<open>path\<close> line, or an \<open>args\<close> line, for
  \<open>GetShimInfo\<close> of part_000, and the quoting that its \<open>path\<close> branch applies.
\<close>

definition path_assignment_part0 :: "wstring \<Rightarrow> wstring option" where
  "path_assignment_part0 linebuf =
     (case find_str (TrimNewline (c_str linebuf)) c_separator of
        None \<Rightarrow> None
      | Some sepPos \<Rightarrow>
          if substr (TrimNewline (c_str linebuf)) 0 sepPos = c_pathPrefix
          then Some (drop (sepPos + length c_separator) (TrimNewline (c_str linebuf)))
          else None)"

definition args_assignment_part0 :: "wstring \<Rightarrow> wstring option" where
  "args_assignment_part0 linebuf =
     (case find_str (TrimNewline (c_str linebuf)) c_separator of
        None \<Rightarrow> None
      | Some sepPos \<Rightarrow>
          if substr (TrimNewline (c_str linebuf)) 0 sepPos = c_argsPrefix
          then Some (drop (sepPos + length c_separator) (TrimNewline (c_str linebuf)))
          else None)"

definition quoted_path :: "wstring \<Rightarrow> wstring" where
  "quoted_path e =
     (if find_char e CHR '' '' 0 \<noteq> None \<and> (e = [] \<or> hd e \<noteq> c_quote)
      then c_quote # e @ [c_quote] else e)"

text \<open>
  The value of a line buffer that is an \<open>args\<close> line for \<open>GetShimInfo\<close> of src/shim.cpp
  (\<open>None\<close> for every other line).
\<close>

definition args_assignment_shim :: "wstring \<Rightarrow> wstring option" where
  "args_assignment_shim linebuf =
     (case find_str (c_str linebuf) '' = '' of
        None \<Rightarrow> None
      | Some pos \<Rightarrow>
          if substr (c_str linebuf) 0 pos = ''args''
          then Some (substr (c_str linebuf) (pos + 3)
                       (length (c_str linebuf) - pos - 3
                          - (if last (c_str linebuf) = c_newline then 1 else 0)))
          else None)"

section \<open>Properties of placeholder expansion\<close>

lemma ExpandEnvVars_loop_step:
  "ExpandEnvVars_loop env result searchPos =
     (case ExpandEnvVars_step env result searchPos of
        None \<Rightarrow> result
      | Some (r', p') \<Rightarrow> ExpandEnvVars_loop env r' p')"
  by (subst ExpandEnvVars_loop.simps)
     (simp add: ExpandEnvVars_step_def Let_def split: option.splits)

lemma ExpandEnvVars_step_decreases:
  "ExpandEnvVars_step env r p = Some (r', p') \<Longrightarrow> length r' - p' < length r - p"
  by (auto simp: ExpandEnvVars_step_def replace_def split: if_splits option.splits
      dest!: find_char_SomeD)

lemma ExpandEnvVars_step_induct:
  assumes "\<And>r p. (\<And>r' p'. ExpandEnvVars_step env r p = Some (r', p') \<Longrightarrow> P r' p') \<Longrightarrow> P r p"
  shows "P r p"
proof (induction "length r - p" arbitrary: r p rule: less_induct)
  case less
  show ?case
    by (rule assms) (rule less, erule ExpandEnvVars_step_decreases)
qed

lemma find_char_shift:
  "find_char (d @ s) c (length d + p) = map_option (\<lambda>i. length d + i) (find_char s c p)"
  by (simp add: find_char_def)

lemma find_char_shift_Suc:
  "find_char (d @ s) c (Suc (length d + p)) = map_option (\<lambda>i. length d + i) (find_char s c (Suc p))"
  using find_char_shift [of d s c "Suc p"] by simp

lemma substr_shift: "substr (d @ s) (length d + p) n = substr s p n"
  by (simp add: substr_def)

lemma substr_shift_Suc: "substr (d @ s) (Suc (length d + p)) n = substr s (Suc p) n"
  using substr_shift [of d s "Suc p" n] by simp

lemma replace_shift: "replace (d @ s) (length d + p) n r = d @ replace s p n r"
  by (simp add: replace_def)

lemma ExpandEnvVars_step_shift:
  "ExpandEnvVars_step env (d @ s) (length d + p) =
     map_option (\<lambda>(r', p'). (d @ r', length d + p')) (ExpandEnvVars_step env s p)"
proof (cases "find_char s c_envDelim p")
  case None
  then show ?thesis
    by (simp add: ExpandEnvVars_step_def find_char_shift)
next
  case sp: (Some startPos)
  show ?thesis
  proof (cases "find_char s c_envDelim (Suc startPos)")
    case None
    with sp show ?thesis
      by (simp add: ExpandEnvVars_step_def find_char_shift find_char_shift_Suc)
  next
    case ep: (Some endPos)
    from find_char_SomeD [OF ep] have lt: "startPos < endPos" by simp
    then have diff: "length d + endPos - Suc (length d + startPos) = endPos - Suc startPos"
      and diff2: "length d + endPos - (length d + startPos) = endPos - startPos"
      by simp_all
    show ?thesis
    proof (cases "wdupenv_s env (substr s (Suc startPos) (endPos - Suc startPos))")
      case None
      with sp ep show ?thesis
        by (simp add: ExpandEnvVars_step_def find_char_shift find_char_shift_Suc
            substr_shift_Suc diff)
    next
      case (Some v)
      with sp ep show ?thesis
        by (simp add: ExpandEnvVars_step_def find_char_shift find_char_shift_Suc
            substr_shift_Suc replace_shift diff diff2)
    qed
  qed
qed

lemma ExpandEnvVars_loop_shift:
  "ExpandEnvVars_loop env (d @ s) (length d + p) = d @ ExpandEnvVars_loop env s p"
proof (induction s p rule: ExpandEnvVars_step_induct [where env = env])
  case (1 r p)
  show ?case
  proof (cases "ExpandEnvVars_step env r p")
    case None
    then show ?thesis
      by (simp add: ExpandEnvVars_loop_step [of env "d @ r"] ExpandEnvVars_loop_step [of env r]
          ExpandEnvVars_step_shift)
  next
    case (Some a)
    obtain r' p' where a: "a = (r', p')" by (cases a)
    from 1 [of r' p'] Some a show ?thesis
      by (simp add: ExpandEnvVars_loop_step [of env "d @ r"] ExpandEnvVars_loop_step [of env r]
          ExpandEnvVars_step_shift)
  qed
qed


lemma takeWhile_neq_notin: "c \<notin> set s \<Longrightarrow> takeWhile (\<lambda>x. x \<noteq> c) s = s"
  by (induction s) auto

lemma takeWhile_neq_first:
  "c \<notin> set pre \<Longrightarrow> takeWhile (\<lambda>x. x \<noteq> c) (pre @ c # r) = pre"
  by (induction pre) auto

lemma find_char_notin: "c \<notin> set s \<Longrightarrow> find_char s c p = None"
proof -
  assume "c \<notin> set s"
  then have "c \<notin> set (drop p s)"
    by (auto dest: in_set_dropD)
  then have eq: "takeWhile (\<lambda>x. x \<noteq> c) (drop p s) = drop p s"
    by (rule takeWhile_neq_notin)
  show ?thesis
    by (simp only: find_char_def eq less_irrefl if_False)
qed

lemma find_char_first: "c \<notin> set pre \<Longrightarrow> find_char (pre @ c # r) c 0 = Some (length pre)"
  by (simp add: find_char_def takeWhile_neq_first)

lemma find_char_second:
  assumes "c \<notin> set name"
  shows "find_char (pre @ c # name @ c # post) c (Suc (length pre)) = Some (Suc (length pre + length name))"
proof -
  have "find_char ((pre @ [c]) @ (name @ c # post)) c (length (pre @ [c]) + 0)
      = map_option (\<lambda>i. length (pre @ [c]) + i) (find_char (name @ c # post) c 0)"
    by (rule find_char_shift)
  then show ?thesis using find_char_first [OF assms, of post] by simp
qed

lemma find_char_second_none:
  assumes "c \<notin> set r"
  shows "find_char (pre @ c # r) c (Suc (length pre)) = None"
proof -
  have "find_char ((pre @ [c]) @ r) c (length (pre @ [c]) + 0)
      = map_option (\<lambda>i. length (pre @ [c]) + i) (find_char r c 0)"
    by (rule find_char_shift)
  then show ?thesis using find_char_notin [OF assms, of 0] by simp
qed

lemma ExpandEnvVars_no_delim:
  "c_envDelim \<notin> set s \<Longrightarrow> ExpandEnvVars env s = s"
  by (simp add: ExpandEnvVars_def ExpandEnvVars_loop_step [of env s] ExpandEnvVars_step_def
      find_char_notin)

lemma ExpandEnvVars_unmatched:
  "c_envDelim \<notin> set pre \<Longrightarrow> c_envDelim \<notin> set r \<Longrightarrow>
   ExpandEnvVars env (pre @ c_envDelim # r) = pre @ c_envDelim # r"
  by (simp add: ExpandEnvVars_def ExpandEnvVars_loop_step [of env "pre @ c_envDelim # r"]
      ExpandEnvVars_step_def find_char_first find_char_second_none)

lemma ExpandEnvVars_step_pair:
  assumes "c_envDelim \<notin> set pre" "c_envDelim \<notin> set name"
  shows "ExpandEnvVars_step env (pre @ c_envDelim # name @ c_envDelim # post) 0 =
    Some ((pre @ placeholder_text env name) @ post, length (pre @ placeholder_text env name))"
  using assms
  by (simp add: ExpandEnvVars_step_def find_char_first find_char_second substr_def replace_def
      placeholder_text_def split: option.splits)

lemma ExpandEnvVars_pair:
  assumes "c_envDelim \<notin> set pre" "c_envDelim \<notin> set name"
  shows "ExpandEnvVars env (pre @ c_envDelim # name @ c_envDelim # post) =
    pre @ placeholder_text env name @ ExpandEnvVars env post"
proof -
  have "ExpandEnvVars env (pre @ c_envDelim # name @ c_envDelim # post) =
     ExpandEnvVars_loop env ((pre @ placeholder_text env name) @ post)
       (length (pre @ placeholder_text env name) + 0)"
    unfolding ExpandEnvVars_def
    by (subst ExpandEnvVars_loop_step) (simp add: ExpandEnvVars_step_pair [OF assms])
  also have "\<dots> = (pre @ placeholder_text env name) @ ExpandEnvVars_loop env post 0"
    by (rule ExpandEnvVars_loop_shift)
  finally show ?thesis by (simp add: ExpandEnvVars_def)
qed

lemma delim_cases [case_names none one pair]:
  obtains "c \<notin> set s"
  | pre r where "s = pre @ c # r" "c \<notin> set pre" "c \<notin> set r"
  | pre name post where "s = pre @ c # name @ c # post" "c \<notin> set pre" "c \<notin> set name"
proof (cases "c \<in> set s")
  case False
  then show ?thesis by (rule that(1))
next
  case True
  then obtain pre r where s: "s = pre @ c # r" and pre: "c \<notin> set pre"
    by (auto dest: split_list_first)
  show ?thesis
  proof (cases "c \<in> set r")
    case False
    with s pre show ?thesis by (rule that(2))
  next
    case True
    then obtain name post where r: "r = name @ c # post" and name: "c \<notin> set name"
      by (auto dest: split_list_first)
    from s r have "s = pre @ c # name @ c # post" by simp
    then show ?thesis using pre name by (rule that(3))
  qed
qed

lemma delim_induct [case_names none one pair]:
  assumes none: "\<And>s. c \<notin> set s \<Longrightarrow> P s"
    and one: "\<And>pre r. c \<notin> set pre \<Longrightarrow> c \<notin> set r \<Longrightarrow> P (pre @ c # r)"
    and pair: "\<And>pre name post. c \<notin> set pre \<Longrightarrow> c \<notin> set name \<Longrightarrow> P post \<Longrightarrow>
      P (pre @ c # name @ c # post)"
  shows "P s"
proof (induction "length s" arbitrary: s rule: less_induct)
  case less
  show ?case
  proof (cases rule: delim_cases [of c s])
    case none
    then show ?thesis by (rule assms(1))
  next
    case (one pre r)
    then show ?thesis using assms(2) by simp
  next
    case (pair pre name post)
    have "P post" by (rule less) (simp add: pair(1))
    with pair show ?thesis using assms(3) by simp
  qed
qed

lemma ExpandEnvVars_prefix:
  assumes "c_envDelim \<notin> set a"
  shows "ExpandEnvVars env (a @ t) = a @ ExpandEnvVars env t"
proof (cases rule: delim_cases [of c_envDelim t])
  case none
  with assms show ?thesis by (simp add: ExpandEnvVars_no_delim)
next
  case (one pre r)
  with assms have "c_envDelim \<notin> set (a @ pre)" by simp
  from ExpandEnvVars_unmatched [OF this one(3), of env] one show ?thesis
    by (simp add: ExpandEnvVars_unmatched)
next
  case (pair pre name post)
  with assms have "c_envDelim \<notin> set (a @ pre)" by simp
  from ExpandEnvVars_pair [OF this pair(3), of env post] pair show ?thesis
    by (simp add: ExpandEnvVars_pair)
qed

lemma ExpandEnvVars_append:
  "even (count_list a c_envDelim) \<Longrightarrow> ExpandEnvVars env (a @ t) = ExpandEnvVars env a @ ExpandEnvVars env t"
proof (induction a rule: delim_induct [where c = c_envDelim])
  case (none s)
  then show ?case by (simp add: ExpandEnvVars_prefix ExpandEnvVars_no_delim)
next
  case (one pre r)
  then show ?case by (simp add: count_list_0_iff [THEN iffD2])
next
  case (pair pre name post)
  then have "even (count_list post c_envDelim)"
    by (simp add: count_list_0_iff [THEN iffD2])
  with pair have IH: "ExpandEnvVars env (post @ t) = ExpandEnvVars env post @ ExpandEnvVars env t"
    by simp
  from ExpandEnvVars_pair [OF pair(1,2), of env "post @ t"] IH show ?case
    by (simp add: ExpandEnvVars_pair [OF pair(1,2)])
qed

lemma scan_names_outside: "c_envDelim \<notin> set pre \<Longrightarrow> scan_names None (pre @ s) = scan_names None s"
  by (induction pre) auto

lemma scan_names_inside:
  "c_envDelim \<notin> set name \<Longrightarrow>
   scan_names (Some acc) (name @ c_envDelim # post) =
     (if acc @ name = [] then [] else [acc @ name]) @ scan_names None post"
  by (induction name arbitrary: acc) auto

lemma placeholder_names_pair:
  "c_envDelim \<notin> set pre \<Longrightarrow> c_envDelim \<notin> set name \<Longrightarrow>
   placeholder_names (pre @ c_envDelim # name @ c_envDelim # post) =
     (if name = [] then [] else [name]) @ placeholder_names post"
  by (simp add: placeholder_names_def scan_names_outside scan_names_inside)

lemma ExpandEnvVars_idem:
  assumes "\<forall>n\<in>set (placeholder_names s). \<forall>v. wdupenv_s env n = Some v \<longrightarrow> c_envDelim \<notin> set v"
  shows "ExpandEnvVars env (ExpandEnvVars env s) = ExpandEnvVars env s"
  using assms
proof (induction s rule: delim_induct [where c = c_envDelim])
  case (none s)
  then show ?case by (simp add: ExpandEnvVars_no_delim)
next
  case (one pre r)
  then show ?case by (simp add: ExpandEnvVars_unmatched)
next
  case (pair pre name post)
  let ?E = "ExpandEnvVars env"
  from pair.prems pair.hyps have "?E (?E post) = ?E post"
    by (intro pair.IH) (auto simp: placeholder_names_pair)
  note IH = this
  have first: "?E (pre @ c_envDelim # name @ c_envDelim # post) = pre @ placeholder_text env name @ ?E post"
    by (rule ExpandEnvVars_pair [OF pair.hyps])
  show ?case
  proof (cases "name \<noteq> [] \<and> wdupenv_s env name \<noteq> None")
    case True
    then obtain v where v: "wdupenv_s env name = Some v" and ne: "name \<noteq> []" by auto
    with pair.prems pair.hyps have "c_envDelim \<notin> set v"
      by (auto simp: placeholder_names_pair)
    with pair.hyps have "c_envDelim \<notin> set (pre @ v)" by simp
    from ExpandEnvVars_prefix [OF this, of env "?E post"] IH v ne first show ?thesis
      by (simp add: placeholder_text_def)
  next
    case False
    then have pt: "placeholder_text env name = c_envDelim # name @ [c_envDelim]"
      by (auto simp: placeholder_text_def)
    from ExpandEnvVars_pair [OF pair.hyps, of env "?E post"] IH first pt show ?thesis
      by simp
  qed
qed

section \<open>Properties of the configuration resolver\<close>

lemma find_str_occurs:
  "find_str s pat = Some i \<Longrightarrow> take (length pat) (drop i s) = pat"
proof (induction s arbitrary: i)
  case Nil
  then show ?case by (simp split: if_splits)
next
  case (Cons x xs)
  show ?case
  proof (cases "take (length pat) (x # xs) = pat")
    case True
    with Cons.prems show ?thesis by simp
  next
    case False
    with Cons.prems obtain j where "find_str xs pat = Some j" "i = Suc j"
      by auto
    with Cons.IH [of j] show ?thesis by simp
  qed
qed

lemma find_str_first:
  "find_str s pat = Some i \<Longrightarrow> j < i \<Longrightarrow> take (length pat) (drop j s) \<noteq> pat"
proof (induction s arbitrary: i j)
  case Nil
  then show ?case by (simp split: if_splits)
next
  case (Cons x xs)
  show ?case
  proof (cases "take (length pat) (x # xs) = pat")
    case True
    with Cons.prems show ?thesis by simp
  next
    case False
    with Cons.prems obtain k where k: "find_str xs pat = Some k" "i = Suc k"
      by auto
    show ?thesis
    proof (cases j)
      case 0
      with False show ?thesis by simp
    next
      case (Suc j')
      with Cons.IH [OF k(1), of j'] Cons.prems(2) k(2) show ?thesis by simp
    qed
  qed
qed

lemma find_str_split:
  assumes "find_str s pat = Some i"
  shows "s = take i s @ pat @ drop (i + length pat) s"
proof -
  have "drop i s = take (length pat) (drop i s) @ drop (length pat) (drop i s)"
    by (simp only: append_take_drop_id)
  also have "take (length pat) (drop i s) = pat"
    by (rule find_str_occurs [OF assms])
  also have "drop (length pat) (drop i s) = drop (i + length pat) s"
    by (simp add: add.commute)
  finally have "take i s @ drop i s = take i s @ pat @ drop (i + length pat) s"
    by simp
  then show ?thesis by simp
qed

lemma find_str_None:
  "find_str s pat = None \<Longrightarrow> take (length pat) (drop j s) \<noteq> pat"
proof (induction s arbitrary: j)
  case Nil
  then show ?case by (auto split: if_splits)
next
  case (Cons x xs)
  then show ?case
    by (cases j) (auto split: if_splits)
qed

lemma find_str_contains:
  assumes "take (length pat) (drop j s) = pat"
  shows "\<exists>i\<le>j. find_str s pat = Some i"
proof (cases "find_str s pat")
  case None
  from find_str_None [OF this, of j] assms show ?thesis by simp
next
  case (Some i)
  have "i \<le> j"
  proof (rule ccontr)
    assume "\<not> i \<le> j"
    then have "j < i" by simp
    from find_str_first [OF Some this] assms show False by simp
  qed
  with Some show ?thesis by simp
qed

lemma parse_line_part0_args:
  assumes "TrimNewline (c_str linebuf) = ''args = '' @ v"
  shows "parse_line_part0 env curDir linebuf info = info\<lparr>args := Some (NormalizeArgsInPlace v curDir)\<rparr>"
  by (simp add: parse_line_part0_def assms c_separator_def c_pathPrefix_def c_argsPrefix_def
      substr_def)

lemma parse_line_part0_path:
  assumes "TrimNewline (c_str linebuf) = ''path = '' @ v"
  shows "parse_line_part0 env curDir linebuf info =
     info\<lparr>path := Some (if find_char (ExpandEnvVars env v) CHR '' '' 0 \<noteq> None
                              \<and> (ExpandEnvVars env v = [] \<or> hd (ExpandEnvVars env v) \<noteq> c_quote)
                           then c_quote # ExpandEnvVars env v @ [c_quote]
                           else ExpandEnvVars env v)\<rparr>"
  by (simp add: parse_line_part0_def assms c_separator_def c_pathPrefix_def c_argsPrefix_def
      substr_def Let_def)

lemma find_char_0_None_iff: "find_char s c 0 = None \<longleftrightarrow> c \<notin> set s"
proof
  assume "c \<notin> set s"
  then show "find_char s c 0 = None" by (rule find_char_notin)
next
  assume n: "find_char s c 0 = None"
  show "c \<notin> set s"
  proof
    assume "c \<in> set s"
    then obtain pre r where "s = pre @ c # r" "c \<notin> set pre"
      by (auto dest: split_list_first)
    with find_char_first [of c pre r] n show False by simp
  qed
qed

lemma find_last_of_append:
  assumes "x \<in> set cs" "\<forall>y\<in>set r. y \<notin> set cs"
  shows "find_last_of (pre @ x # r) cs = Some (length pre)"
proof -
  have "dropWhile (\<lambda>y. y \<notin> set cs) (rev r @ x # rev pre) = x # rev pre"
    using assms by (subst dropWhile_append2) auto
  then show ?thesis by (simp add: find_last_of_def)
qed

lemma shim_file_name_ext:
  assumes "length ext = 3"
  shows "shim_file_name (stem @ ext) (length (stem @ ext)) = stem @ ''shim''"
  using assms by (simp add: shim_file_name_def)

lemma sidecar_directory:
  assumes "sep = c_backslash \<or> sep = CHR ''/''"
    and "c_backslash \<notin> set base" and "CHR ''/'' \<notin> set base" and "length ext = 3"
  shows "GetDirectory (take (length (dir @ sep # base @ ext))
           (shim_file_name (dir @ sep # base @ ext) (length (dir @ sep # base @ ext)))) = dir
       \<and> GetDirectory_shim
           (shim_file_name (dir @ sep # base @ ext) (length (dir @ sep # base @ ext))) = dir"
proof -
  have nosep: "\<forall>y\<in>set (base @ t). y \<notin> set [c_backslash, CHR ''/'']"
    if "c_backslash \<notin> set t" "CHR ''/'' \<notin> set t" for t
    using assms(2,3) that by auto
  have sep: "sep \<in> set [c_backslash, CHR ''/'']" using assms(1) by auto
  have name: "shim_file_name (dir @ sep # base @ ext) (length (dir @ sep # base @ ext))
      = dir @ sep # base @ ''shim''"
    using shim_file_name_ext [OF assms(4), of "dir @ sep # base"] by simp
  have len: "length (dir @ sep # base @ ext) = length (dir @ sep # base @ ''shi'')"
    using assms(4) by simp
  have "take (length (dir @ sep # base @ ''shi'')) ((dir @ sep # base @ ''shi'') @ ''m'')
      = dir @ sep # base @ ''shi''"
    by (rule append_eq_conv_conj [THEN iffD1, THEN conjunct1, symmetric]) (rule refl)
  then have tk: "take (length (dir @ sep # base @ ext)) (dir @ sep # base @ ''shim'')
      = dir @ sep # base @ ''shi''"
    by (simp only: len) simp
  have 1: "find_last_of (dir @ sep # (base @ ''shi'')) [c_backslash, CHR ''/''] = Some (length dir)"
    by (rule find_last_of_append [OF sep nosep]) (simp_all add: c_backslash_def)
  have 2: "find_last_of (dir @ sep # (base @ ''shim'')) [c_backslash, CHR ''/''] = Some (length dir)"
    by (rule find_last_of_append [OF sep nosep]) (simp_all add: c_backslash_def)
  have "GetDirectory (dir @ sep # base @ ''shi'') = dir"
    using 1 by (simp add: GetDirectory_def substr_def)
  moreover have "GetDirectory_shim (dir @ sep # base @ ''shim'') = dir"
    using 2 by (simp add: GetDirectory_shim_def substr_def)
  ultimately show ?thesis by (simp only: name tk)
qed

lemma GetShimInfo_loop_part0_fold:
  "GetShimInfo_loop_part0 env curDir stream info =
     fold (parse_line_part0 env curDir) (stream_lines stream) info"
proof (induction env curDir stream info rule: GetShimInfo_loop_part0.induct)
  case (1 env curDir stream info)
  show ?case
  proof (cases "fgetws linebuf_size stream")
    case None
    then show ?thesis
      by (simp add: GetShimInfo_loop_part0.simps [of env curDir stream]
          stream_lines.simps [of stream])
  next
    case (Some a)
    obtain linebuf rest where a: "a = (linebuf, rest)" by (cases a)
    from 1 [OF Some [unfolded a] refl] Some a show ?thesis
      by (simp add: GetShimInfo_loop_part0.simps [of env curDir stream]
          stream_lines.simps [of stream])
  qed
qed

lemma GetShimInfo_loop_shim_fold:
  "GetShimInfo_loop_shim env stream info =
     fold (parse_line_shim env) (stream_lines stream) info"
proof (induction env stream info rule: GetShimInfo_loop_shim.induct)
  case (1 env stream info)
  show ?case
  proof (cases "fgetws linebuf_size stream")
    case None
    then show ?thesis
      by (simp add: GetShimInfo_loop_shim.simps [of env stream]
          stream_lines.simps [of stream])
  next
    case (Some a)
    obtain linebuf rest where a: "a = (linebuf, rest)" by (cases a)
    from 1 [OF Some [unfolded a] refl] Some a show ?thesis
      by (simp add: GetShimInfo_loop_shim.simps [of env stream]
          stream_lines.simps [of stream])
  qed
qed

lemma envVars_parse_line_part0:
  "envVars (parse_line_part0 env curDir linebuf info) =
     envVars info @ (case custom_assignment_part0 linebuf of
                       None \<Rightarrow> []
                     | Some (n, raw) \<Rightarrow> [(n, ExpandEnvVars env raw)])"
  by (simp add: parse_line_part0_def custom_assignment_part0_def Let_def split: option.splits)


lemma envVars_fold_part0:
  "envVars (fold (parse_line_part0 env curDir) ls info) =
     envVars info @ map (\<lambda>(n, raw). (n, ExpandEnvVars env raw))
                      (List.map_filter custom_assignment_part0 ls)"
proof (induction ls arbitrary: info)
  case Nil
  then show ?case by (simp add:)
next
  case (Cons l ls)
  show ?case
    by (cases "custom_assignment_part0 l")
       (auto simp: Cons.IH envVars_parse_line_part0)
qed


subsection \<open>Evaluation of the examples\<close>

text \<open>The closed examples evaluate the definitions with these equations.\<close>

lemmas string_eval =
  find_char_def substr_def replace_def c_str_def wdupenv_s_def c_envDelim_def c_quote_def
  c_newline_def c_return_def c_backslash_def c_separator_def c_pathPrefix_def c_argsPrefix_def
  c_dirPlaceholder_def TrimNewline_def find_last_of_def

lemmas part0_eval =
  GetShimInfo_part0_def GetModuleFileNameW_def MAX_PATH_def shim_file_name_def
  GetShimInfo_loop_part0.simps fgetws_def linebuf_size_def parse_line_part0_def
  ExpandEnvVars_def ExpandEnvVars_loop.simps NormalizeArgsInPlace_def GetDirectory_def
  empty_ShimInfo_def observe_def log_event_def Let_def

lemmas demo_eval = demo_os_def demo_state_def demo_env_def demo_shim_text_def

lemma demo_state_simps: "env_block demo_state = demo_env" "trace demo_state = []"
  by (simp_all add: demo_state_def)

lemmas shim_eval =
  GetShimInfo_shim_def GetModuleFileNameW_def MAX_PATH_def shim_file_name_def
  GetShimInfo_loop_shim.simps fgetws_def linebuf_size_def parse_line_shim_def
  NormalizeVariable_def NormalizeVariable_loop.simps find_str_from_def GetVariableValue_def
  s_startDelim_def s_endDelim_def NormalizeArgs_def GetDirectory_shim_def
  observe_def log_event_def Let_def

lemma demo_GetShimInfo_part0_state:
  assumes "os_modulePath os = ''C:/apps/tool.exe''"
    and "os_wfopen_s os ''C:/apps/tool.shim'' = Some demo_shim_text"
  shows "GetShimInfo_part0 os demo_state = Inr (demo_info_part0, demo_state)"
  using assms
  by (simp add: part0_eval string_eval demo_state_simps demo_env_def demo_shim_text_def
      demo_info_part0_def)

lemma demo_GetShimInfo_shim_state:
  assumes "os_modulePath os = ''C:/apps/tool.exe''"
    and "os_wfopen_s os ''C:/apps/tool.shim'' = Some demo_shim_text"
  shows "GetShimInfo_shim os demo_state = Inr (demo_info_shim, demo_state)"
  using assms
  by (simp add: shim_eval string_eval demo_state_simps demo_env_def demo_shim_text_def
      demo_info_shim_def)

lemma demo_os_file:
  "os_modulePath demo_os = ''C:/apps/tool.exe''"
  "os_wfopen_s demo_os ''C:/apps/tool.shim'' = Some demo_shim_text"
  "os_modulePath demo_gui_os = ''C:/apps/tool.exe''"
  "os_wfopen_s demo_gui_os ''C:/apps/tool.shim'' = Some demo_shim_text"
  by (simp_all add: demo_os_def demo_gui_os_def)

lemma demo_GetShimInfo_part0:
  "observe (GetShimInfo_part0 demo_os demo_state) =
     Inr (\<lparr>path = Some (c_quote # ''C:/Tmp/my tool.exe'' @ [c_quote]),
           args = Some ''--base C:/apps --again %~dp0'',
           envVars = [(''FOO'', ''bar''), (''BAZ'', ''%FOO%-kim'')]\<rparr>, [])"
  by (simp add: demo_GetShimInfo_part0_state [OF demo_os_file(1,2)] observe_def
      demo_info_part0_def demo_state_simps)

section \<open>Properties of the launcher\<close>

lemma trace_log_event: "trace (log_event e st) = trace st @ [e]"
  by (simp add: log_event_def)

lemma env_block_log_event: "env_block (log_event e st) = env_block st"
  by (simp add: log_event_def)

lemma GetModuleFileNameW_fits:
  "length (os_modulePath os) < MAX_PATH \<Longrightarrow>
   GetModuleFileNameW os MAX_PATH = (os_modulePath os, length (os_modulePath os))"
  by (simp add: GetModuleFileNameW_def)

lemma is_putenv_simps:
  "is_putenv (EvPutEnv n v)" "\<not> is_putenv (Stderr m)" "\<not> is_putenv (EvCreateProcessW c)"
  "\<not> is_putenv (EvResumeThread h)" "\<not> is_putenv (EvShellExecuteExW p a)"
  "\<not> is_putenv EvSetConsoleCtrlHandler" "\<not> is_putenv EvFreeConsole"
  "\<not> is_putenv EvCreateJobObject" "\<not> is_putenv (EvSetInformationJobObject h)"
  "\<not> is_putenv (EvAssignProcessToJobObject j h)" "\<not> is_putenv (EvWaitForSingleObject h)"
  "\<not> is_putenv (EvGetExitCodeProcess h)"
  by (simp_all add: is_putenv_def)

lemma is_wait_simps:
  "\<not> is_wait (EvPutEnv n v)" "\<not> is_wait (Stderr m)" "\<not> is_wait (EvCreateProcessW c)"
  "\<not> is_wait (EvResumeThread h)" "\<not> is_wait (EvShellExecuteExW p a)"
  "\<not> is_wait EvSetConsoleCtrlHandler" "\<not> is_wait EvFreeConsole"
  "\<not> is_wait EvCreateJobObject" "\<not> is_wait (EvSetInformationJobObject h)"
  "\<not> is_wait (EvAssignProcessToJobObject j h)" "is_wait (EvWaitForSingleObject h)"
  "\<not> is_wait (EvGetExitCodeProcess h)"
  by (simp_all add: is_wait_def)

lemma is_create_simps:
  "\<not> is_create (EvPutEnv n v)" "\<not> is_create (Stderr m)" "is_create (EvCreateProcessW c)"
  "\<not> is_create (EvResumeThread h)" "is_create (EvShellExecuteExW p a)"
  "\<not> is_create EvSetConsoleCtrlHandler" "\<not> is_create EvFreeConsole"
  "\<not> is_create EvCreateJobObject" "\<not> is_create (EvSetInformationJobObject h)"
  "\<not> is_create (EvAssignProcessToJobObject j h)" "\<not> is_create (EvWaitForSingleObject h)"
  "\<not> is_create (EvGetExitCodeProcess h)"
  by (simp_all add: is_create_def)

lemmas event_kind_simps = is_putenv_simps is_wait_simps is_create_simps

lemma putenv_all_part0_effect:
  "env_block (putenv_all_part0 os vs st) = fold (apply_putenv os) vs (env_block st)
   \<and> filter is_putenv (trace (putenv_all_part0 os vs st)) =
       filter is_putenv (trace st) @ map (\<lambda>(n, v). EvPutEnv n v) vs
   \<and> filter is_wait (trace (putenv_all_part0 os vs st)) = filter is_wait (trace st)
   \<and> filter is_create (trace (putenv_all_part0 os vs st)) = filter is_create (trace st)"
proof (induction vs arbitrary: st)
  case Nil
  show ?case by simp
next
  case (Cons nv vs)
  obtain n v where nv: "nv = (n, v)" by (cases nv)
  show ?case
  proof (cases "os_wputenv_s os n v (env_block st)")
    case None
    then show ?thesis
      by (simp add: nv Cons.IH apply_putenv_def trace_log_event env_block_log_event
          event_kind_simps)
  next
    case (Some env')
    then show ?thesis
      by (simp add: nv Cons.IH apply_putenv_def trace_log_event env_block_log_event
          event_kind_simps)
  qed
qed

lemma putenv_all_shim_effect:
  "env_block (putenv_all_shim os vs st) = fold (apply_putenv os) vs (env_block st)
   \<and> filter is_putenv (trace (putenv_all_shim os vs st)) =
       filter is_putenv (trace st) @ map (\<lambda>(n, v). EvPutEnv n v) vs
   \<and> filter is_wait (trace (putenv_all_shim os vs st)) = filter is_wait (trace st)
   \<and> filter is_create (trace (putenv_all_shim os vs st)) = filter is_create (trace st)"
proof (induction vs arbitrary: st)
  case Nil
  show ?case by simp
next
  case (Cons nv vs)
  obtain n v where nv: "nv = (n, v)" by (cases nv)
  show ?case
  proof (cases "os_wputenv_s os n v (env_block st)")
    case None
    then show ?thesis
      by (simp add: nv Cons.IH apply_putenv_def trace_log_event env_block_log_event
          event_kind_simps)
  next
    case (Some env')
    then show ?thesis
      by (simp add: nv Cons.IH apply_putenv_def trace_log_event env_block_log_event
          event_kind_simps)
  qed
qed

lemma trace_putenv_all_part0_prefix:
  "\<exists>evs. trace (putenv_all_part0 os vs st) = trace st @ evs"
proof (induction vs arbitrary: st)
  case Nil
  show ?case by simp
next
  case (Cons nv vs)
  obtain n v where nv: "nv = (n, v)" by (cases nv)
  show ?case
  proof (cases "os_wputenv_s os n v (env_block st)")
    case None
    from Cons.IH [of "log_event (Stderr (ErrSetEnv n)) (log_event (EvPutEnv n v) st)"] None
    show ?thesis by (auto simp: nv trace_log_event)
  next
    case (Some env')
    from Cons.IH [of "log_event (EvPutEnv n v) (st\<lparr>env_block := env'\<rparr>)"] Some
    show ?thesis by (auto simp: nv trace_log_event)
  qed
qed


lemma MakeProcess_part0_effect:
  assumes "path info = Some p" and "MakeProcess_part0 os info st = (hs, st')"
  shows "env_block st' = fold (apply_putenv os) (envVars info) (env_block st)
   \<and> filter is_putenv (trace st') =
       filter is_putenv (trace st) @ map (\<lambda>(n, v). EvPutEnv n v) (envVars info)
   \<and> filter is_wait (trace st') = filter is_wait (trace st)
   \<and> EvCreateProcessW (p @ CHR '' '' # (case args info of Some a \<Rightarrow> a | None \<Rightarrow> []))
       \<in> set (trace st')"
proof -
  let ?st1 = "putenv_all_part0 os (envVars info) st"
  let ?a = "case args info of Some a \<Rightarrow> a | None \<Rightarrow> []"
  let ?cmd = "p @ CHR '' '' # ?a"
  note eff = putenv_all_part0_effect [of os "envVars info" st]
  show ?thesis
  proof (cases "os_CreateProcessW os ?cmd (env_block ?st1)")
    case (Inr hh)
    obtain hp ht where hh: "hh = (hp, ht)" by (cases hh)
    from assms Inr hh eff show ?thesis
      by (auto simp: MakeProcess_part0_def Let_def trace_log_event env_block_log_event
          event_kind_simps)
  next
    case (Inl err)
    show ?thesis
    proof (cases "err = ERROR_ELEVATION_REQUIRED")
      case False
      with assms Inl eff show ?thesis
        by (auto simp: MakeProcess_part0_def Let_def trace_log_event env_block_log_event
            event_kind_simps)
    next
      case True
      with assms Inl eff show ?thesis
        by (cases "os_ShellExecuteExW os p ?a")
           (auto simp: MakeProcess_part0_def Let_def trace_log_event env_block_log_event
            event_kind_simps)
    qed
  qed
qed

lemma MakeProcess_shim_effect:
  assumes "path info = Some p" and "args info = Some a"
  shows "\<exists>hs st'. MakeProcess_shim os info st = Inr (hs, st')
   \<and> env_block st' = fold (apply_putenv os) (envVars info) (env_block st)
   \<and> filter is_putenv (trace st') =
       filter is_putenv (trace st) @ map (\<lambda>(n, v). EvPutEnv n v) (envVars info)
   \<and> filter is_wait (trace st') = filter is_wait (trace st)
   \<and> EvCreateProcessW (p @ CHR '' '' # a) \<in> set (trace st')"
proof -
  let ?st1 = "putenv_all_shim os (envVars info) st"
  let ?cmd = "p @ CHR '' '' # a"
  note eff = putenv_all_shim_effect [of os "envVars info" st]
  show ?thesis
  proof (cases "os_CreateProcessW os ?cmd (env_block ?st1)")
    case (Inr hh)
    obtain hp ht where hh: "hh = (hp, ht)" by (cases hh)
    from assms Inr hh eff show ?thesis
      by (auto simp: MakeProcess_shim_def Let_def trace_log_event env_block_log_event
          event_kind_simps)
  next
    case (Inl err)
    show ?thesis
    proof (cases "err = ERROR_ELEVATION_REQUIRED")
      case False
      with assms Inl eff show ?thesis
        by (auto simp: MakeProcess_shim_def Let_def trace_log_event env_block_log_event
            event_kind_simps)
    next
      case True
      with assms Inl eff show ?thesis
        by (cases "os_ShellExecuteExW os p a")
           (auto simp: MakeProcess_shim_def Let_def trace_log_event env_block_log_event
            event_kind_simps)
    qed
  qed
qed

lemma wmain_setup_part0_effect:
  assumes "wmain_setup_part0 os p st = (w, job, st')"
  shows "env_block st' = env_block st
    \<and> filter is_putenv (trace st') = filter is_putenv (trace st)
    \<and> filter is_wait (trace st') = filter is_wait (trace st)
    \<and> filter is_create (trace st') = filter is_create (trace st)
    \<and> w = (HIWORD (exeType_part0 os p) \<noteq> 0)"
  using assms
  by (auto simp: wmain_setup_part0_def Let_def trace_log_event env_block_log_event
      event_kind_simps)

lemma wmain_setup_shim_effect:
  assumes "wmain_setup_shim os ret st = (w, job, st')"
  shows "env_block st' = env_block st
    \<and> filter is_putenv (trace st') = filter is_putenv (trace st)
    \<and> filter is_wait (trace st') = filter is_wait (trace st)
    \<and> filter is_create (trace st') = filter is_create (trace st)
    \<and> w = (HIWORD ret \<noteq> 0)"
  using assms
  by (auto simp: wmain_setup_shim_def Let_def trace_log_event env_block_log_event
      event_kind_simps)


lemma GetShimInfo_shim_effect:
  assumes "GetShimInfo_shim os st = Inr (info, st')"
  shows "env_block st' = env_block st
    \<and> filter is_putenv (trace st') = filter is_putenv (trace st)
    \<and> filter is_wait (trace st') = filter is_wait (trace st)
    \<and> filter is_create (trace st') = filter is_create (trace st)"
  using assms
  by (auto simp: GetShimInfo_shim_def Let_def trace_log_event env_block_log_event
      event_kind_simps split: prod.splits if_splits option.splits)

lemma append_command_tail_quoted:
  "append_command_tail a (c_quote # argv0 @ c_quote # tail) argv0 = Inr (a @ tail)"
  by (simp add: append_command_tail_def)

lemma append_command_tail_plain:
  "take 1 (argv0 @ tail) \<noteq> [c_quote] \<Longrightarrow>
   append_command_tail a (argv0 @ tail) argv0 = Inr (a @ tail)"
proof -
  assume "take 1 (argv0 @ tail) \<noteq> [c_quote]"
  then have "\<not> (argv0 @ tail \<noteq> [] \<and> hd (argv0 @ tail) = c_quote)"
    by (cases "argv0 @ tail") auto
  then have "append_command_tail a (argv0 @ tail) argv0 =
      Inr (a @ drop (length argv0) (argv0 @ tail))"
    unfolding append_command_tail_def Let_def by (simp only: if_False) simp
  then show ?thesis by simp
qed

lemma wmain_part0_launch:
  assumes "GetShimInfo_part0 os st0 = Inr (info0, st1)" and "path info0 = Some p"
    and "append_command_tail (case args info0 of Some a \<Rightarrow> a | None \<Rightarrow> [])
           (os_commandLine os) (os_argv0 os) = Inr a"
    and "wmain_setup_part0 os p st1 = (w, job, st5)"
    and "MakeProcess_part0 os (info0\<lparr>args := Some a\<rparr>) st5 = ((hp, ht), st6)"
  shows "wmain_part0 os st0 =
           (if hp = 0 then Inr (1, st6) else Inr (wmain_wait_part0 os job hp st6))"
  using assms by (simp add: wmain_part0_def)

lemma wmain_shim_launch:
  assumes "GetShimInfo_shim os st0 = Inr (info0, st1)" and "path info0 = Some p"
    and "append_command_tail (case args info0 of Some a \<Rightarrow> a | None \<Rightarrow> [])
           (os_commandLine os) (os_argv0 os) = Inr a"
    and "exeType_shim os p = Inr ret"
    and "wmain_setup_shim os ret st1 = (w, job, st5)"
    and "MakeProcess_shim os (info0\<lparr>args := Some a\<rparr>) st5 = Inr ((hp, ht), st6)"
  shows "wmain_shim os st0 =
           (if hp \<noteq> 0 \<and> \<not> w then Inr (wmain_wait_shim os job hp st6)
            else Inr (if hp \<noteq> 0 then 0 else 1, st6))"
  using assms by (simp add: wmain_shim_def)

lemma wmain_wait_part0_result:
  "fst (wmain_wait_part0 os job hp st) =
      sint (case os_GetExitCodeProcess os hp of Some c \<Rightarrow> c | None \<Rightarrow> 1)
   \<and> trace (snd (wmain_wait_part0 os job hp st)) =
      trace st @ [EvAssignProcessToJobObject job hp, EvWaitForSingleObject hp,
                  EvGetExitCodeProcess hp]
   \<and> env_block (snd (wmain_wait_part0 os job hp st)) = env_block st"
  by (simp add: wmain_wait_part0_def Let_def trace_log_event env_block_log_event)

lemma wmain_wait_shim_result:
  "fst (wmain_wait_shim os job hp st) =
      sint (case os_GetExitCodeProcess os hp of Some c \<Rightarrow> c | None \<Rightarrow> 0)
   \<and> trace (snd (wmain_wait_shim os job hp st)) =
      trace st @ [EvAssignProcessToJobObject job hp, EvWaitForSingleObject hp,
                  EvGetExitCodeProcess hp]
   \<and> env_block (snd (wmain_wait_shim os job hp st)) = env_block st"
  by (simp add: wmain_wait_shim_def Let_def trace_log_event env_block_log_event)

lemma process_exit_code_sint: "process_exit_code (sint (N :: 32 word)) = N"
  by (simp add: process_exit_code_def)

lemma MakeProcess_part0_created:
  assumes "path info = Some p" and "\<And>cmd env. os_CreateProcessW os cmd env = Inr (hp, ht)"
  shows "fst (MakeProcess_part0 os info st) = (hp, ht)"
  using assms by (simp add: MakeProcess_part0_def Let_def)

lemma MakeProcess_shim_created:
  assumes "path info = Some p" and "args info = Some a"
    and "\<And>cmd env. os_CreateProcessW os cmd env = Inr (hp, ht)"
  shows "\<exists>st'. MakeProcess_shim os info st = Inr ((hp, ht), st')"
  using assms by (simp add: MakeProcess_shim_def Let_def)

lemma wmain_part0_command_line:
  assumes G: "GetShimInfo_part0 os st0 = Inr (info0, st1)" and P: "path info0 = Some p"
    and T: "append_command_tail (case args info0 of Some a \<Rightarrow> a | None \<Rightarrow> [])
           (os_commandLine os) (os_argv0 os) = Inr r"
  shows "\<exists>code st'. wmain_part0 os st0 = Inr (code, st')
           \<and> EvCreateProcessW (p @ CHR '' '' # r) \<in> set (trace st')"
proof -
  obtain w job st5 where S: "wmain_setup_part0 os p st1 = (w, job, st5)"
    by (cases "wmain_setup_part0 os p st1")
  obtain hp ht st6 where M: "MakeProcess_part0 os (info0\<lparr>args := Some r\<rparr>) st5 = ((hp, ht), st6)"
    by (cases "MakeProcess_part0 os (info0\<lparr>args := Some r\<rparr>) st5") auto
  from P have P': "path (info0\<lparr>args := Some r\<rparr>) = Some p" by simp
  from MakeProcess_part0_effect [OF P' M]
  have c: "EvCreateProcessW (p @ CHR '' '' # r) \<in> set (trace st6)" by simp
  show ?thesis
  proof (cases "hp = 0")
    case True
    with wmain_part0_launch [OF G P T S M] c show ?thesis by simp
  next
    case False
    obtain code st' where W: "wmain_wait_part0 os job hp st6 = (code, st')"
      by (cases "wmain_wait_part0 os job hp st6")
    with wmain_wait_part0_result [of os job hp st6] c
    have "EvCreateProcessW (p @ CHR '' '' # r) \<in> set (trace st')" by simp
    with wmain_part0_launch [OF G P T S M] False W show ?thesis by simp
  qed
qed

lemma wmain_shim_command_line:
  assumes G: "GetShimInfo_shim os st0 = Inr (info0, st1)" and P: "path info0 = Some p"
    and T: "append_command_tail (case args info0 of Some a \<Rightarrow> a | None \<Rightarrow> [])
           (os_commandLine os) (os_argv0 os) = Inr r"
    and L: "length p < MAX_PATH"
  shows "\<exists>code st'. wmain_shim os st0 = Inr (code, st')
           \<and> EvCreateProcessW (p @ CHR '' '' # r) \<in> set (trace st')"
proof -
  let ?ret = "os_SHGetFileInfoW os (os_PathUnquoteSpacesW os p)"
  from L have E: "exeType_shim os p = Inr ?ret" by (simp add: exeType_shim_def)
  obtain w job st5 where S: "wmain_setup_shim os ?ret st1 = (w, job, st5)"
    by (cases "wmain_setup_shim os ?ret st1")
  from P have P': "path (info0\<lparr>args := Some r\<rparr>) = Some p"
    and A': "args (info0\<lparr>args := Some r\<rparr>) = Some r" by simp_all
  from MakeProcess_shim_effect [OF P' A', of os st5]
  obtain hs st6 where M0: "MakeProcess_shim os (info0\<lparr>args := Some r\<rparr>) st5 = Inr (hs, st6)"
    and c: "EvCreateProcessW (p @ CHR '' '' # r) \<in> set (trace st6)" by blast
  obtain hp ht where hs: "hs = (hp, ht)" by (cases hs)
  note M = M0 [unfolded hs]
  show ?thesis
  proof (cases "hp \<noteq> 0 \<and> \<not> w")
    case False
    with wmain_shim_launch [OF G P T E S M] c show ?thesis by auto
  next
    case True
    obtain code st' where W: "wmain_wait_shim os job hp st6 = (code, st')"
      by (cases "wmain_wait_shim os job hp st6")
    with wmain_wait_shim_result [of os job hp st6] c
    have "EvCreateProcessW (p @ CHR '' '' # r) \<in> set (trace st')" by simp
    with wmain_shim_launch [OF G P T E S M] True W show ?thesis by simp
  qed
qed

lemma wmain_part0_exit_code:
  assumes G: "GetShimInfo_part0 os st = Inr (info, sta)" and P: "path info = Some p"
    and T: "append_command_tail (case args info of Some a \<Rightarrow> a | None \<Rightarrow> [])
           (os_commandLine os) (os_argv0 os) = Inr r"
    and S: "wmain_setup_part0 os p sta = (w, job, stb)"
    and M: "MakeProcess_part0 os (info\<lparr>args := Some r\<rparr>) stb = ((hp, ht), stc)"
    and H: "hp \<noteq> 0" and X: "os_GetExitCodeProcess os hp = Some N"
  shows "\<exists>st'. wmain_part0 os st = Inr (sint N, st')
           \<and> trace st' = trace stc @ [EvAssignProcessToJobObject job hp,
                 EvWaitForSingleObject hp, EvGetExitCodeProcess hp]
           \<and> process_exit_code (sint N) = N"
proof -
  obtain code st' where W: "wmain_wait_part0 os job hp stc = (code, st')"
    by (cases "wmain_wait_part0 os job hp stc")
  with wmain_wait_part0_result [of os job hp stc] X
  have "code = sint N" and "trace st' = trace stc @ [EvAssignProcessToJobObject job hp,
                 EvWaitForSingleObject hp, EvGetExitCodeProcess hp]"
    by simp_all
  with wmain_part0_launch [OF G P T S M] H W show ?thesis
    by (simp add: process_exit_code_sint)
qed

lemma wmain_shim_exit_code:
  assumes G: "GetShimInfo_shim os st = Inr (info, sta)" and P: "path info = Some p"
    and T: "append_command_tail (case args info of Some a \<Rightarrow> a | None \<Rightarrow> [])
           (os_commandLine os) (os_argv0 os) = Inr r"
    and E: "exeType_shim os p = Inr ret"
    and S: "wmain_setup_shim os ret sta = (False, job, stb)"
    and M: "MakeProcess_shim os (info\<lparr>args := Some r\<rparr>) stb = Inr ((hp, ht), stc)"
    and H: "hp \<noteq> 0" and X: "os_GetExitCodeProcess os hp = Some N"
  shows "\<exists>st'. wmain_shim os st = Inr (sint N, st')
           \<and> trace st' = trace stc @ [EvAssignProcessToJobObject job hp,
                 EvWaitForSingleObject hp, EvGetExitCodeProcess hp]
           \<and> process_exit_code (sint N) = N"
proof -
  obtain code st' where W: "wmain_wait_shim os job hp stc = (code, st')"
    by (cases "wmain_wait_shim os job hp stc")
  with wmain_wait_shim_result [of os job hp stc] X
  have "code = sint N" and "trace st' = trace stc @ [EvAssignProcessToJobObject job hp,
                 EvWaitForSingleObject hp, EvGetExitCodeProcess hp]"
    by simp_all
  with wmain_shim_launch [OF G P T E S M] H W show ?thesis
    by (simp add: process_exit_code_sint)
qed

lemma wmain_shim_windowed:
  assumes G: "GetShimInfo_shim os st = Inr (info, sta)" and P: "path info = Some p"
    and T: "append_command_tail (case args info of Some a \<Rightarrow> a | None \<Rightarrow> [])
           (os_commandLine os) (os_argv0 os) = Inr r"
    and E: "exeType_shim os p = Inr ret"
    and S: "wmain_setup_shim os ret sta = (True, job, stb)"
    and M: "MakeProcess_shim os (info\<lparr>args := Some r\<rparr>) stb = Inr ((hp, ht), stc)"
    and H: "hp \<noteq> 0"
  shows "wmain_shim os st = Inr (0, stc)
       \<and> filter is_wait (trace stc) = filter is_wait (trace st)"
proof -
  from P have P': "path (info\<lparr>args := Some r\<rparr>) = Some p"
    and A': "args (info\<lparr>args := Some r\<rparr>) = Some r" by simp_all
  from MakeProcess_shim_effect [OF P' A', of os stb] M
  have "filter is_wait (trace stc) = filter is_wait (trace stb)" by auto
  with wmain_setup_shim_effect [OF S] GetShimInfo_shim_effect [OF G]
  have "filter is_wait (trace stc) = filter is_wait (trace st)" by simp
  with wmain_shim_launch [OF G P T E S M] H show ?thesis by simp
qed



lemma wmain_part0_always_waits:
  assumes G: "GetShimInfo_part0 os st = Inr (info, sta)" and P: "path info = Some p"
    and T: "append_command_tail (case args info of Some a \<Rightarrow> a | None \<Rightarrow> [])
           (os_commandLine os) (os_argv0 os) = Inr r"
    and S: "wmain_setup_part0 os p sta = (w, job, stb)"
    and M: "MakeProcess_part0 os (info\<lparr>args := Some r\<rparr>) stb = ((hp, ht), stc)"
    and H: "hp \<noteq> 0"
  shows "\<exists>st'. wmain_part0 os st =
             Inr (sint (case os_GetExitCodeProcess os hp of Some c \<Rightarrow> c | None \<Rightarrow> 1), st')
           \<and> trace st' = trace stc @ [EvAssignProcessToJobObject job hp,
                 EvWaitForSingleObject hp, EvGetExitCodeProcess hp]"
proof -
  obtain code st' where W: "wmain_wait_part0 os job hp stc = (code, st')"
    by (cases "wmain_wait_part0 os job hp stc")
  with wmain_wait_part0_result [of os job hp stc]
  have "code = sint (case os_GetExitCodeProcess os hp of Some c \<Rightarrow> c | None \<Rightarrow> 1)"
    and "trace st' = trace stc @ [EvAssignProcessToJobObject job hp,
                 EvWaitForSingleObject hp, EvGetExitCodeProcess hp]"
    by simp_all
  with wmain_part0_launch [OF G P T S M] H W show ?thesis by simp
qed


subsection \<open>The example system\<close>

lemma demo_exeType:
  "exeType_part0 demo_os (c_quote # ''C:/Tmp/my tool.exe'' @ [c_quote]) = 0x4550"
  "exeType_shim demo_os (c_quote # ''%TEMP%/my tool.exe'' @ [c_quote]) = Inr 0"
  "exeType_part0 demo_gui_os (c_quote # ''C:/Tmp/my tool.exe'' @ [c_quote]) = 0x00044550"
  "exeType_shim demo_gui_os (c_quote # ''%TEMP%/my tool.exe'' @ [c_quote]) = Inr 0x00044550"
  by (simp_all add: exeType_part0_def exeType_shim_def demo_os_def demo_gui_os_def
      demo_unquote_def MAX_PATH_def c_quote_def)

lemma demo_HIWORD: "HIWORD 0x4550 = 0" "HIWORD 0 = 0" "HIWORD 0x00044550 = 4"
  by (simp_all add: HIWORD_def)

lemma demo_os_launch:
  "os_CreateProcessW demo_os cmd env = Inr (11, 12)"
  "os_GetExitCodeProcess demo_os 11 = Some 3"
  "os_CreateProcessW demo_gui_os cmd env = Inr (11, 12)"
  "os_GetExitCodeProcess demo_gui_os 11 = Some 3"
  "os_commandLine demo_gui_os = os_commandLine demo_os"
  "os_argv0 demo_gui_os = os_argv0 demo_os"
  by (simp_all add: demo_os_def demo_gui_os_def)

lemma demo_tail:
  "append_command_tail ''--base C:/apps --again %~dp0'' (os_commandLine demo_os) (os_argv0 demo_os)
     = Inr (''--base C:/apps --again %~dp0'' @ '' '' @ c_quote # ''an arg'' @ c_quote # ''  x'')"
proof -
  have "os_commandLine demo_os = c_quote # os_argv0 demo_os @ c_quote #
      ('' '' @ c_quote # ''an arg'' @ c_quote # ''  x'')"
    by (simp add: demo_os_def)
  then show ?thesis
    by (simp only:) (rule append_command_tail_quoted)
qed

lemmas launch_eval =
  append_command_tail_def wmain_setup_part0_def wmain_setup_shim_def exeType_part0_def
  exeType_shim_def MakeProcess_part0_def MakeProcess_shim_def wmain_wait_part0_def
  wmain_wait_shim_def HIWORD_def ERROR_ELEVATION_REQUIRED_def MAX_PATH_def log_event_def
  observe_def Let_def demo_unquote_def demo_putenv_def c_quote_def

lemma demo_wmain_part0_gui:
  "observe (wmain_part0 demo_gui_os demo_state) =
     Inr (3, [EvFreeConsole, EvCreateJobObject, EvSetInformationJobObject 7,
              EvPutEnv ''FOO'' ''bar'', EvPutEnv ''BAZ'' ''%FOO%-kim'',
              EvCreateProcessW
                (c_quote # ''C:/Tmp/my tool.exe'' @ c_quote #
                 '' --base C:/apps --again %~dp0 '' @ c_quote # ''an arg'' @ c_quote # ''  x''),
              EvResumeThread 12, EvSetConsoleCtrlHandler,
              EvAssignProcessToJobObject 7 11, EvWaitForSingleObject 11,
              EvGetExitCodeProcess 11])"
  apply (simp only: wmain_part0_def demo_GetShimInfo_part0_state [OF demo_os_file(3,4)])
  apply (simp add: launch_eval demo_info_part0_def demo_gui_os_def demo_os_def demo_state_simps)
  done

lemma demo_wmain_shim_gui:
  "observe (wmain_shim demo_gui_os demo_state) =
     Inr (0, [EvFreeConsole, EvCreateJobObject, EvSetInformationJobObject 7,
              EvPutEnv ''FOO'' ''bar'', EvPutEnv ''BAZ'' ''-kim'',
              EvCreateProcessW
                (c_quote # ''%TEMP%/my tool.exe'' @ c_quote #
                 '' --base C:/apps --again %~dp0 '' @ c_quote # ''an arg'' @ c_quote # ''  x''),
              EvResumeThread 12, EvSetConsoleCtrlHandler])"
  apply (simp only: wmain_shim_def demo_GetShimInfo_shim_state [OF demo_os_file(3,4)])
  apply (simp add: launch_eval demo_info_shim_def demo_gui_os_def demo_os_def demo_state_simps)
  done

subsection \<open>\<open>NormalizeVariable\<close> of src/shim.cpp\<close>

lemma find_str_single: "find_str s [c] = find_char s c 0"
proof (induction s)
  case Nil
  show ?case by (simp add: find_char_def)
next
  case (Cons x xs)
  show ?case
  proof (cases "x = c")
    case True
    then show ?thesis by (simp add: find_char_def)
  next
    case False
    with Cons.IH show ?thesis by (simp add: find_char_def)
  qed
qed

lemma find_str_from_single: "find_str_from s [c] pos = find_char s c pos"
  by (cases "pos \<le> length s") (simp_all add: find_str_from_def find_str_single find_char_def)

lemma NormalizeVariable_loop_step:
  "NormalizeVariable_loop env str searchPos =
     (case NormalizeVariable_step env str searchPos of
        None \<Rightarrow> str
      | Some (r', p') \<Rightarrow> NormalizeVariable_loop env r' p')"
  by (subst NormalizeVariable_loop.simps)
     (simp add: NormalizeVariable_step_def Let_def s_startDelim_def s_endDelim_def
       find_str_from_single c_envDelim_def split: option.splits)

lemma NormalizeVariable_step_decreases:
  "NormalizeVariable_step env r p = Some (r', p') \<Longrightarrow> length r' - p' < length r - p"
  by (auto simp: NormalizeVariable_step_def replace_def split: if_splits option.splits
      dest!: find_char_SomeD)

lemma NormalizeVariable_step_induct:
  assumes "\<And>r p. (\<And>r' p'. NormalizeVariable_step env r p = Some (r', p') \<Longrightarrow> P r' p') \<Longrightarrow> P r p"
  shows "P r p"
proof (induction "length r - p" arbitrary: r p rule: less_induct)
  case less
  show ?case
    by (rule assms) (rule less, erule NormalizeVariable_step_decreases)
qed

lemma NormalizeVariable_step_shift:
  "NormalizeVariable_step env (d @ s) (length d + p) =
     map_option (\<lambda>(r', p'). (d @ r', length d + p')) (NormalizeVariable_step env s p)"
proof (cases "find_char s c_envDelim p")
  case None
  then show ?thesis
    by (simp add: NormalizeVariable_step_def find_char_shift)
next
  case sp: (Some startPos)
  show ?thesis
  proof (cases "find_char s c_envDelim (Suc startPos)")
    case None
    with sp show ?thesis
      by (simp add: NormalizeVariable_step_def find_char_shift find_char_shift_Suc)
  next
    case ep: (Some endPos)
    from find_char_SomeD [OF ep] have lt: "startPos < endPos" by simp
    then have diff: "length d + endPos - Suc (length d + startPos) = endPos - Suc startPos"
      and diff2: "Suc (length d + endPos) - (length d + startPos) = Suc endPos - startPos"
      by simp_all
    from sp ep show ?thesis
      by (simp add: NormalizeVariable_step_def find_char_shift find_char_shift_Suc
          substr_shift_Suc replace_shift diff diff2)
  qed
qed

lemma NormalizeVariable_loop_shift:
  "NormalizeVariable_loop env (d @ s) (length d + p) = d @ NormalizeVariable_loop env s p"
proof (induction s p rule: NormalizeVariable_step_induct [where env = env])
  case (1 r p)
  show ?case
  proof (cases "NormalizeVariable_step env r p")
    case None
    then show ?thesis
      by (simp add: NormalizeVariable_loop_step [of env "d @ r"]
          NormalizeVariable_loop_step [of env r] NormalizeVariable_step_shift)
  next
    case (Some a)
    obtain r' p' where a: "a = (r', p')" by (cases a)
    from 1 [of r' p'] Some a show ?thesis
      by (simp add: NormalizeVariable_loop_step [of env "d @ r"]
          NormalizeVariable_loop_step [of env r] NormalizeVariable_step_shift)
  qed
qed

lemma NormalizeVariable_no_delim:
  "c_envDelim \<notin> set s \<Longrightarrow> NormalizeVariable env s = s"
  by (simp add: NormalizeVariable_def NormalizeVariable_loop_step [of env s]
      NormalizeVariable_step_def find_char_notin)

lemma NormalizeVariable_unmatched:
  "c_envDelim \<notin> set pre \<Longrightarrow> c_envDelim \<notin> set r \<Longrightarrow>
   NormalizeVariable env (pre @ c_envDelim # r) = pre @ c_envDelim # r"
  by (simp add: NormalizeVariable_def NormalizeVariable_loop_step [of env "pre @ c_envDelim # r"]
      NormalizeVariable_step_def find_char_first find_char_second_none)

lemma NormalizeVariable_step_pair:
  assumes "c_envDelim \<notin> set pre" "c_envDelim \<notin> set name"
  shows "NormalizeVariable_step env (pre @ c_envDelim # name @ c_envDelim # post) 0 =
    Some ((pre @ GetVariableValue env name) @ post, length (pre @ GetVariableValue env name))"
  using assms
  by (simp add: NormalizeVariable_step_def find_char_first find_char_second substr_def replace_def)

lemma NormalizeVariable_pair:
  assumes "c_envDelim \<notin> set pre" "c_envDelim \<notin> set name"
  shows "NormalizeVariable env (pre @ c_envDelim # name @ c_envDelim # post) =
    pre @ GetVariableValue env name @ NormalizeVariable env post"
proof -
  have "NormalizeVariable env (pre @ c_envDelim # name @ c_envDelim # post) =
     NormalizeVariable_loop env ((pre @ GetVariableValue env name) @ post)
       (length (pre @ GetVariableValue env name) + 0)"
    unfolding NormalizeVariable_def
    by (subst NormalizeVariable_loop_step) (simp add: NormalizeVariable_step_pair [OF assms])
  also have "\<dots> = (pre @ GetVariableValue env name) @ NormalizeVariable_loop env post 0"
    by (rule NormalizeVariable_loop_shift)
  finally show ?thesis by (simp add: NormalizeVariable_def)
qed

lemma NormalizeVariable_prefix:
  assumes "c_envDelim \<notin> set a"
  shows "NormalizeVariable env (a @ t) = a @ NormalizeVariable env t"
proof (cases rule: delim_cases [of c_envDelim t])
  case none
  with assms show ?thesis by (simp add: NormalizeVariable_no_delim)
next
  case (one pre r)
  with assms have "c_envDelim \<notin> set (a @ pre)" by simp
  from NormalizeVariable_unmatched [OF this one(3), of env] one show ?thesis
    by (simp add: NormalizeVariable_unmatched)
next
  case (pair pre name post)
  with assms have "c_envDelim \<notin> set (a @ pre)" by simp
  from NormalizeVariable_pair [OF this pair(3), of env post] pair show ?thesis
    by (simp add: NormalizeVariable_pair)
qed

lemma scan_all_names_outside:
  "c_envDelim \<notin> set pre \<Longrightarrow> scan_all_names None (pre @ s) = scan_all_names None s"
  by (induction pre) auto

lemma scan_all_names_inside:
  "c_envDelim \<notin> set name \<Longrightarrow>
   scan_all_names (Some acc) (name @ c_envDelim # post) = (acc @ name) # scan_all_names None post"
  by (induction name arbitrary: acc) auto

lemma scan_all_names_pair:
  "c_envDelim \<notin> set pre \<Longrightarrow> c_envDelim \<notin> set name \<Longrightarrow>
   scan_all_names None (pre @ c_envDelim # name @ c_envDelim # post) =
     name # scan_all_names None post"
  by (simp add: scan_all_names_outside scan_all_names_inside)

lemma NormalizeVariable_idem:
  assumes "\<forall>n\<in>set (scan_all_names None s). c_envDelim \<notin> set (GetVariableValue env n)"
  shows "NormalizeVariable env (NormalizeVariable env s) = NormalizeVariable env s"
  using assms
proof (induction s rule: delim_induct [where c = c_envDelim])
  case (none s)
  then show ?case by (simp add: NormalizeVariable_no_delim)
next
  case (one pre r)
  then show ?case by (simp add: NormalizeVariable_unmatched)
next
  case (pair pre name post)
  let ?N = "NormalizeVariable env"
  from pair.prems pair.hyps have IH: "?N (?N post) = ?N post"
    by (intro pair.IH) (auto simp: scan_all_names_pair)
  from pair.prems pair.hyps have "c_envDelim \<notin> set (GetVariableValue env name)"
    by (auto simp: scan_all_names_pair)
  with pair.hyps have "c_envDelim \<notin> set (pre @ GetVariableValue env name)" by simp
  from NormalizeVariable_prefix [OF this, of env "?N post"] IH
    NormalizeVariable_pair [OF pair.hyps, of env post]
  show ?case by simp
qed

subsection \<open>The result of \<open>GetShimInfo\<close> for a whole file\<close>

lemma path_parse_line_part0:
  "path (parse_line_part0 env curDir linebuf info) =
     (case path_assignment_part0 linebuf of
        None \<Rightarrow> path info
      | Some v \<Rightarrow> Some (quoted_path (ExpandEnvVars env v)))"
  by (simp add: parse_line_part0_def path_assignment_part0_def quoted_path_def Let_def
      c_pathPrefix_def c_argsPrefix_def split: option.splits)

lemma args_parse_line_part0:
  "args (parse_line_part0 env curDir linebuf info) =
     (case args_assignment_part0 linebuf of
        None \<Rightarrow> args info
      | Some v \<Rightarrow> Some (NormalizeArgsInPlace v curDir))"
  by (simp add: parse_line_part0_def args_assignment_part0_def Let_def
      c_pathPrefix_def c_argsPrefix_def split: option.splits)

lemma path_fold_part0:
  "path (fold (parse_line_part0 env curDir) ls info) =
     (case List.map_filter path_assignment_part0 ls of
        [] \<Rightarrow> path info
      | v # vs \<Rightarrow> Some (quoted_path (ExpandEnvVars env (last (v # vs)))))"
proof (induction ls arbitrary: info)
  case Nil
  then show ?case by simp
next
  case (Cons l ls)
  show ?case
    by (cases "path_assignment_part0 l"; cases "List.map_filter path_assignment_part0 ls")
       (simp_all add: Cons.IH path_parse_line_part0)
qed

lemma args_fold_part0:
  "args (fold (parse_line_part0 env curDir) ls info) =
     (case List.map_filter args_assignment_part0 ls of
        [] \<Rightarrow> args info
      | v # vs \<Rightarrow> Some (NormalizeArgsInPlace (last (v # vs)) curDir))"
proof (induction ls arbitrary: info)
  case Nil
  then show ?case by simp
next
  case (Cons l ls)
  show ?case
    by (cases "args_assignment_part0 l"; cases "List.map_filter args_assignment_part0 ls")
       (simp_all add: Cons.IH args_parse_line_part0)
qed

text \<open>
  What \<open>GetShimInfo\<close> of part_000 returns for a file that it can open: the last \<open>path\<close>
  line and the last \<open>args\<close> line count, the custom assignments are kept in order.
\<close>

lemma GetShimInfo_part0_file:
  assumes "3 \<le> length (os_modulePath os)" and "length (os_modulePath os) < MAX_PATH"
    and "os_wfopen_s os (shim_file_name (os_modulePath os) (length (os_modulePath os))) = Some stream"
  shows "GetShimInfo_part0 os st =
    Inr (\<lparr>path =
            (case List.map_filter path_assignment_part0 (stream_lines stream) of
               [] \<Rightarrow> None
             | v # vs \<Rightarrow> Some (quoted_path (ExpandEnvVars (env_block st) (last (v # vs))))),
          args =
            (case List.map_filter args_assignment_part0 (stream_lines stream) of
               [] \<Rightarrow> None
             | v # vs \<Rightarrow>
                 Some (NormalizeArgsInPlace (last (v # vs))
                   (GetDirectory (take (length (os_modulePath os))
                      (shim_file_name (os_modulePath os) (length (os_modulePath os))))))),
          envVars =
            map (\<lambda>(n, raw). (n, ExpandEnvVars (env_block st) raw))
              (List.map_filter custom_assignment_part0 (stream_lines stream))\<rparr>, st)"
proof -
  let ?curDir = "GetDirectory (take (length (os_modulePath os))
                      (shim_file_name (os_modulePath os) (length (os_modulePath os))))"
  let ?info = "fold (parse_line_part0 (env_block st) ?curDir) (stream_lines stream) empty_ShimInfo"
  from assms have "GetShimInfo_part0 os st = Inr (?info, st)"
    by (simp add: GetShimInfo_part0_def GetModuleFileNameW_fits GetShimInfo_loop_part0_fold)
  moreover have "?info = \<lparr>path = path ?info, args = args ?info, envVars = envVars ?info\<rparr>"
    by simp
  ultimately show ?thesis
    by (simp only: path_fold_part0 args_fold_part0 envVars_fold_part0)
       (simp add: empty_ShimInfo_def cong: list.case_cong)
qed

subsection \<open>The \<open>args\<close> line of a whole file and the directory of the file\<close>

lemma args_parse_line_shim:
  "args (parse_line_shim env linebuf info) =
     (case args_assignment_shim linebuf of
        None \<Rightarrow> args info
      | Some v \<Rightarrow> Some v)"
  by (simp add: parse_line_shim_def args_assignment_shim_def Let_def split: option.splits)

lemma args_fold_shim:
  "args (fold (parse_line_shim env) ls info) =
     (case List.map_filter args_assignment_shim ls of
        [] \<Rightarrow> args info
      | v # vs \<Rightarrow> Some (last (v # vs)))"
proof (induction ls arbitrary: info)
  case Nil
  then show ?case by simp
next
  case (Cons l ls)
  show ?case
    by (cases "args_assignment_shim l"; cases "List.map_filter args_assignment_shim ls")
       (simp_all add: Cons.IH args_parse_line_shim)
qed

lemma GetShimInfo_shim_file_args:
  assumes "3 \<le> length (os_modulePath os)" and "length (os_modulePath os) < MAX_PATH"
    and "os_wfopen_s os (shim_file_name (os_modulePath os) (length (os_modulePath os))) = Some stream"
  shows "\<exists>info. GetShimInfo_shim os st = Inr (info, st) \<and> args info =
     NormalizeArgs
       (case List.map_filter args_assignment_shim (stream_lines stream) of
          [] \<Rightarrow> None
        | v # vs \<Rightarrow> Some (last (v # vs)))
       (GetDirectory_shim (shim_file_name (os_modulePath os) (length (os_modulePath os))))"
  using assms
  by (simp add: GetShimInfo_shim_def GetModuleFileNameW_fits GetShimInfo_loop_shim_fold
      args_fold_shim Let_def cong: list.case_cong)

lemma GetShimInfo_part0_file_args:
  assumes "3 \<le> length (os_modulePath os)" and "length (os_modulePath os) < MAX_PATH"
    and "os_wfopen_s os (shim_file_name (os_modulePath os) (length (os_modulePath os))) = Some stream"
  shows "\<exists>info. GetShimInfo_part0 os st = Inr (info, st) \<and> args info =
     (case List.map_filter args_assignment_part0 (stream_lines stream) of
        [] \<Rightarrow> None
      | v # vs \<Rightarrow>
          Some (NormalizeArgsInPlace (last (v # vs))
            (GetDirectory (take (length (os_modulePath os))
               (shim_file_name (os_modulePath os) (length (os_modulePath os)))))))"
  by (simp add: GetShimInfo_part0_file [OF assms])

lemma demo_lines:
  "stream_lines demo_shim_text =
     [''path = %TEMP%/my tool.exe'' @ [c_newline],
      ''args = --base %~dp0 --again %~dp0'' @ [c_newline],
      ''FOO = bar'' @ [c_newline],
      ''BAZ = %FOO%-%USERNAME%'' @ [c_newline]]"
  by (simp add: stream_lines.simps fgetws_def linebuf_size_def demo_shim_text_def string_eval)

lemma demo_args_lines:
  "List.map_filter args_assignment_part0 (stream_lines demo_shim_text)
     = [] @ [''--base %~dp0 --again %~dp0'']"
  "List.map_filter args_assignment_shim (stream_lines demo_shim_text)
     = [] @ [''--base %~dp0 --again %~dp0'']"
  by (simp_all add: demo_lines args_assignment_part0_def
      args_assignment_shim_def string_eval)

lemma dir_placeholder_first:
  assumes "take (length c_dirPlaceholder) (drop j v) = c_dirPlaceholder"
  shows "\<exists>i\<le>j. find_str v c_dirPlaceholder = Some i
       \<and> v = take i v @ c_dirPlaceholder @ drop (i + 5) v"
proof -
  from find_str_contains [OF assms] obtain i where i: "i \<le> j"
    and f: "find_str v c_dirPlaceholder = Some i" by blast
  have len: "length c_dirPlaceholder = 5" by (simp add: c_dirPlaceholder_def)
  from find_str_split [OF f] have "v = take i v @ c_dirPlaceholder @ drop (i + 5) v"
    by (simp only: len)
  with i f show ?thesis by blast
qed

lemma NormalizeArgs_at:
  assumes "find_str v c_dirPlaceholder = Some i"
  shows "NormalizeArgsInPlace v d = take i v @ d @ drop (i + 5) v"
    and "NormalizeArgs (Some v) d = Some (take i v @ d @ drop (i + 5) v)"
proof -
  have s5: "Suc (Suc (Suc (Suc (Suc i)))) = i + 5" by simp
  show "NormalizeArgsInPlace v d = take i v @ d @ drop (i + 5) v"
    using assms by (simp add: NormalizeArgsInPlace_def replace_def c_dirPlaceholder_def s5)
  show "NormalizeArgs (Some v) d = Some (take i v @ d @ drop (i + 5) v)"
    using assms by (simp add: NormalizeArgs_def replace_def c_dirPlaceholder_def s5)
qed

lemma GetShimInfo_args_directory:
  assumes m: "os_modulePath os = dir @ sep # base @ ext"
    and sep: "sep = c_backslash \<or> sep = CHR ''/''"
    and base: "c_backslash \<notin> set base" "CHR ''/'' \<notin> set base"
    and ext: "length ext = 3"
    and len: "length (os_modulePath os) < MAX_PATH"
    and opened: "os_wfopen_s os (dir @ sep # base @ ''shim'') = Some stream"
  shows "List.map_filter args_assignment_part0 (stream_lines stream) = vs @ [v] \<Longrightarrow>
           \<exists>info. GetShimInfo_part0 os st = Inr (info, st)
             \<and> args info = Some (NormalizeArgsInPlace v dir)"
    and "List.map_filter args_assignment_shim (stream_lines stream) = ws @ [v] \<Longrightarrow>
           \<exists>info. GetShimInfo_shim os st = Inr (info, st)
             \<and> args info = NormalizeArgs (Some v) dir"
proof -
  have name: "shim_file_name (os_modulePath os) (length (os_modulePath os))
      = dir @ sep # base @ ''shim''"
    using shim_file_name_ext [OF ext, of "dir @ sep # base"] by (simp add: m)
  have l3: "3 \<le> length (os_modulePath os)" using ext by (simp add: m)
  have open_ok: "os_wfopen_s os (shim_file_name (os_modulePath os) (length (os_modulePath os)))
      = Some stream"
    by (simp only: name opened)
  from sidecar_directory [OF sep base ext, of dir]
  have d1: "GetDirectory (take (length (os_modulePath os))
         (shim_file_name (os_modulePath os) (length (os_modulePath os)))) = dir"
    and d2: "GetDirectory_shim
         (shim_file_name (os_modulePath os) (length (os_modulePath os))) = dir"
    by (simp_all only: m)
  have c1: "(case vs @ [v] of [] \<Rightarrow> None
      | x # xs \<Rightarrow> Some (NormalizeArgsInPlace (last (x # xs)) dir))
      = Some (NormalizeArgsInPlace v dir)"
    by (cases vs) simp_all
  have c2: "(case ws @ [v] of [] \<Rightarrow> None | x # xs \<Rightarrow> Some (last (x # xs))) = Some v"
    by (cases ws) simp_all
  show "\<exists>info. GetShimInfo_part0 os st = Inr (info, st)
             \<and> args info = Some (NormalizeArgsInPlace v dir)"
    if "List.map_filter args_assignment_part0 (stream_lines stream) = vs @ [v]"
    using GetShimInfo_part0_file_args [OF l3 len open_ok, of st]
    by (simp only: that d1 c1)
  show "\<exists>info. GetShimInfo_shim os st = Inr (info, st)
             \<and> args info = NormalizeArgs (Some v) dir"
    if "List.map_filter args_assignment_shim (stream_lines stream) = ws @ [v]"
    using GetShimInfo_shim_file_args [OF l3 len open_ok, of st]
    by (simp only: that d2 c2)
qed

text \<open>
  A command line whose program token has quotes inside, such as \<open>C:/"apps"/tool x\<close> with
  \<open>argv[0]\<close> = \<open>C:/apps/tool\<close>: the skip counts the characters of \<open>argv[0]\<close>, two fewer
  than the token, and the end of the token is appended with the tail.
\<close>

lemma append_command_tail_inner_quotes:
  "append_command_tail ''-v'' (''C:/'' @ c_quote # ''apps'' @ c_quote # ''/tool x'') ''C:/apps/tool''
     = Inr ''-vol x''"
  by (simp add: append_command_tail_def c_quote_def)

lemma demo_cut_os_file:
  "os_modulePath demo_cut_os = ''C:/apps/tool.exe''"
  "os_wfopen_s demo_cut_os ''C:/apps/tool.shim'' = Some demo_shim_text"
  by (simp_all add: demo_cut_os_def demo_os_def)

subsection \<open>Unresolvable placeholders, the escape and the second pass\<close>

text \<open>
  \<open>ExpandEnvVars\<close> of src/unnamed/part_000: a placeholder \<open>%NAME%\<close> whose non-empty name is
  not defined in the environment is left in the output as it is, delimiters included,
  and the scan goes on just past its closing delimiter: the text before it (whose
  delimiters are all paired, so that the scan reaches the placeholder at its opening
  delimiter) and the text after it are expanded on their own. In particular, expanding
  a single unresolvable placeholder returns the input.
\<close>

lemma ExpandEnvVars_unresolved_kept:
  assumes "name \<noteq> []" and "c_envDelim \<notin> set name" and "wdupenv_s env name = None"
    and "even (count_list pre c_envDelim)"
  shows "ExpandEnvVars env (pre @ c_envDelim # name @ c_envDelim # post) =
           ExpandEnvVars env pre @ c_envDelim # name @ c_envDelim # ExpandEnvVars env post
       \<and> ExpandEnvVars env (c_envDelim # name @ [c_envDelim]) = c_envDelim # name @ [c_envDelim]"
proof -
  from assms(1,3) have pt: "placeholder_text env name = c_envDelim # name @ [c_envDelim]"
    by (simp add: placeholder_text_def)
  have pair: "ExpandEnvVars env (c_envDelim # name @ c_envDelim # t) =
      c_envDelim # name @ c_envDelim # ExpandEnvVars env t" for t
    using ExpandEnvVars_pair [of "[]" name env t] assms(2) pt by simp
  have "ExpandEnvVars env (pre @ c_envDelim # name @ c_envDelim # post) =
      ExpandEnvVars env pre @ ExpandEnvVars env (c_envDelim # name @ c_envDelim # post)"
    by (rule ExpandEnvVars_append [OF assms(4)])
  moreover have "ExpandEnvVars env [] = []"
    by (simp add: ExpandEnvVars_no_delim)
  ultimately show ?thesis using pair [of post] pair [of "[]"] by simp
qed

lemma ExpandEnvVars_unresolved_kept_example:
  "ExpandEnvVars demo_env (''-%A%-'' @ CHR ''%'' # ''DOES_NOT_EXIST_XYZ'' @ CHR ''%'' # ''/%A%'') =
     ''-x y-%DOES_NOT_EXIST_XYZ%/x y''
   \<and> ExpandEnvVars demo_env ''%DOES_NOT_EXIST_XYZ%'' = ''%DOES_NOT_EXIST_XYZ%''"
proof -
  have h1: "''DOES_NOT_EXIST_XYZ'' \<noteq> []" by simp
  have h2: "c_envDelim \<notin> set ''DOES_NOT_EXIST_XYZ''" by (simp add: c_envDelim_def)
  have h3: "wdupenv_s demo_env ''DOES_NOT_EXIST_XYZ'' = None"
    by (simp add: wdupenv_s_def c_str_def demo_env_def)
  have h4: "even (count_list ''-%A%-'' c_envDelim)" by (simp add: c_envDelim_def)
  have e1: "ExpandEnvVars demo_env ''-%A%-'' = ''-x y-''" by code_simp
  have e2: "ExpandEnvVars demo_env ''/%A%'' = ''/x y''" by code_simp
  from ExpandEnvVars_unresolved_kept [OF h1 h2 h3 h4, of "''/%A%''"] e1 e2
  show ?thesis by (simp add: c_envDelim_def)
qed

text \<open>
  C4. An unresolvable placeholder is to stay in the output as it is. \<open>ExpandEnvVars\<close> of
  src/unnamed/part_000 keeps it (lemma \<open>ExpandEnvVars_unresolved_kept\<close>).
  \<open>NormalizeVariable\<close> of src/shim.cpp replaces every \<open>%name%\<close> span by the value of
  \<open>GetVariableValue\<close>, which is the empty text for an undefined name: the placeholder is
  deleted, alone, between two resolved placeholders, and in the value of a custom
  variable read from the file.
\<close>

theorem NormalizeVariable_unresolved_deleted:
  "wdupenv_s demo_env ''DOES_NOT_EXIST_XYZ'' = None
   \<and> NormalizeVariable demo_env ''%DOES_NOT_EXIST_XYZ%'' = []
   \<and> ExpandEnvVars demo_env ''%DOES_NOT_EXIST_XYZ%'' = ''%DOES_NOT_EXIST_XYZ%''
   \<and> NormalizeVariable demo_env ''%A%-%NOPE%-%A%'' = ''x y--x y''
   \<and> ExpandEnvVars demo_env ''%A%-%NOPE%-%A%'' = ''x y-%NOPE%-x y''
   \<and> envVars (parse_line_shim demo_env (''TOOLS = %NOPE%/tools'' @ [c_newline]) empty_ShimInfo)
       = [(''TOOLS'', ''/tools'')]
   \<and> envVars (parse_line_part0 demo_env ''C:/apps'' (''TOOLS = %NOPE%/tools'' @ [c_newline])
         empty_ShimInfo) = [(''TOOLS'', ''%NOPE%/tools'')]"
proof -
  have "wdupenv_s demo_env ''DOES_NOT_EXIST_XYZ'' = None"
    by (simp add: wdupenv_s_def c_str_def demo_env_def)
  moreover have "NormalizeVariable demo_env ''%DOES_NOT_EXIST_XYZ%'' = []"
    and "NormalizeVariable demo_env ''%A%-%NOPE%-%A%'' = ''x y--x y''"
    by (simp_all add: NormalizeVariable_def NormalizeVariable_loop.simps find_str_from_def
        GetVariableValue_def s_startDelim_def s_endDelim_def string_eval demo_env_def)
  moreover have "ExpandEnvVars demo_env ''%DOES_NOT_EXIST_XYZ%'' = ''%DOES_NOT_EXIST_XYZ%''"
    and "ExpandEnvVars demo_env ''%A%-%NOPE%-%A%'' = ''x y-%NOPE%-x y''"
    by (simp_all add: ExpandEnvVars_def ExpandEnvVars_loop.simps string_eval demo_eval)
  moreover have "envVars (parse_line_shim demo_env (''TOOLS = %NOPE%/tools'' @ [c_newline])
      empty_ShimInfo) = [(''TOOLS'', ''/tools'')]"
    by (simp add: parse_line_shim_def NormalizeVariable_def NormalizeVariable_loop.simps
        find_str_from_def GetVariableValue_def s_startDelim_def s_endDelim_def string_eval
        demo_env_def empty_ShimInfo_def)
  moreover have "envVars (parse_line_part0 demo_env ''C:/apps''
      (''TOOLS = %NOPE%/tools'' @ [c_newline]) empty_ShimInfo) = [(''TOOLS'', ''%NOPE%/tools'')]"
    by (simp add: parse_line_part0_def ExpandEnvVars_def ExpandEnvVars_loop.simps string_eval
        demo_eval empty_ShimInfo_def)
  ultimately show ?thesis by (intro conjI)
qed

text \<open>
  \<open>ExpandEnvVars\<close> of src/unnamed/part_000: an empty name between two adjacent delimiters
  (\<open>%%\<close>, met by the scan as an opening and a closing delimiter: the delimiters before
  the pair are all paired) is skipped: both characters stay in the output, nothing is
  substituted or deleted for them, and the scan goes on after the pair.
\<close>

lemma ExpandEnvVars_empty_name_kept:
  assumes "even (count_list pre c_envDelim)"
  shows "ExpandEnvVars env (pre @ c_envDelim # c_envDelim # post) =
           ExpandEnvVars env pre @ c_envDelim # c_envDelim # ExpandEnvVars env post"
proof -
  have "ExpandEnvVars env (c_envDelim # c_envDelim # post) =
      c_envDelim # c_envDelim # ExpandEnvVars env post"
    using ExpandEnvVars_pair [of "[]" "[]" env post] by (simp add: placeholder_text_def)
  with ExpandEnvVars_append [OF assms, of env "c_envDelim # c_envDelim # post"]
  show ?thesis by simp
qed

lemma ExpandEnvVars_empty_name_kept_example:
  "ExpandEnvVars demo_env ''100%%done'' = ''100%%done''
   \<and> ExpandEnvVars demo_env ''%A%%%%A%'' = ''x y%%x y''"
proof -
  have h0: "even (count_list ''100'' c_envDelim)" by (simp add: c_envDelim_def)
  have h1: "even (count_list ''%A%'' c_envDelim)" by (simp add: c_envDelim_def)
  have e0: "ExpandEnvVars demo_env ''100'' = ''100''" by code_simp
  have e1: "ExpandEnvVars demo_env ''done'' = ''done''" by code_simp
  have e2: "ExpandEnvVars demo_env ''%A%'' = ''x y''" by code_simp
  from ExpandEnvVars_empty_name_kept [OF h0, of demo_env "''done''"]
    ExpandEnvVars_empty_name_kept [OF h1, of demo_env "''%A%''"] e0 e1 e2
  show ?thesis by (simp add: c_envDelim_def)
qed

text \<open>
  C7. The pair \<open>%%\<close> is to stay in the output. \<open>ExpandEnvVars\<close> of src/unnamed/part_000
  skips it (lemma \<open>ExpandEnvVars_empty_name_kept\<close>). \<open>NormalizeVariable\<close> of
  src/shim.cpp has no branch for the empty name: it looks the empty name up, gets the
  empty text and puts it for the pair, so that \<open>100%%done\<close> becomes \<open>100done\<close>, also in
  the value of a custom variable read from the file.
\<close>

theorem NormalizeVariable_empty_pair_deleted:
  "NormalizeVariable demo_env ''100%%done'' = ''100done''
   \<and> ExpandEnvVars demo_env ''100%%done'' = ''100%%done''
   \<and> envVars (parse_line_shim demo_env (''MSG = 100%%done'' @ [c_newline]) empty_ShimInfo)
       = [(''MSG'', ''100done'')]
   \<and> envVars (parse_line_part0 demo_env ''C:/apps'' (''MSG = 100%%done'' @ [c_newline])
         empty_ShimInfo) = [(''MSG'', ''100%%done'')]"
proof -
  have "NormalizeVariable demo_env ''100%%done'' = ''100done''"
    by (simp add: NormalizeVariable_def NormalizeVariable_loop.simps find_str_from_def
        GetVariableValue_def s_startDelim_def s_endDelim_def string_eval demo_env_def)
  moreover have "ExpandEnvVars demo_env ''100%%done'' = ''100%%done''"
    by (simp add: ExpandEnvVars_def ExpandEnvVars_loop.simps string_eval demo_eval)
  moreover have "envVars (parse_line_shim demo_env (''MSG = 100%%done'' @ [c_newline])
      empty_ShimInfo) = [(''MSG'', ''100done'')]"
    by (simp add: parse_line_shim_def NormalizeVariable_def NormalizeVariable_loop.simps
        find_str_from_def GetVariableValue_def s_startDelim_def s_endDelim_def string_eval
        demo_env_def empty_ShimInfo_def)
  moreover have "envVars (parse_line_part0 demo_env ''C:/apps''
      (''MSG = 100%%done'' @ [c_newline]) empty_ShimInfo) = [(''MSG'', ''100%%done'')]"
    by (simp add: parse_line_part0_def ExpandEnvVars_def ExpandEnvVars_loop.simps string_eval
        demo_eval empty_ShimInfo_def)
  ultimately show ?thesis by (intro conjI)
qed

text \<open>
  C9. When every placeholder of the input that resolves does so to a value without a
  delimiter, a second expansion pass changes nothing. (Placeholders that do not resolve
  are allowed; the claim's inputs, whose placeholders all resolve, are among these.)
  The same holds for \<open>NormalizeVariable\<close> of src/shim.cpp, which also looks up the
  empty name and puts the empty text for an undefined name.
\<close>

theorem ExpandEnvVars_second_pass_stable:
  "((\<forall>n\<in>set (placeholder_names s). \<forall>v. wdupenv_s env n = Some v \<longrightarrow> c_envDelim \<notin> set v) \<longrightarrow>
      ExpandEnvVars env (ExpandEnvVars env s) = ExpandEnvVars env s)
   \<and> ((\<forall>n\<in>set (scan_all_names None s). c_envDelim \<notin> set (GetVariableValue env n)) \<longrightarrow>
      NormalizeVariable env (NormalizeVariable env s) = NormalizeVariable env s)"
  using ExpandEnvVars_idem [of s env] NormalizeVariable_idem [of s env] by blast

theorem ExpandEnvVars_second_pass_stable_witness:
  "placeholder_names ''%TEMP%/%A%.txt'' = [''TEMP'', ''A'']
   \<and> wdupenv_s demo_env ''TEMP'' = Some ''C:/Tmp'' \<and> wdupenv_s demo_env ''A'' = Some ''x y''
   \<and> ExpandEnvVars demo_env ''%TEMP%/%A%.txt'' = ''C:/Tmp/x y.txt''
   \<and> ExpandEnvVars demo_env (ExpandEnvVars demo_env ''%TEMP%/%A%.txt'') = ''C:/Tmp/x y.txt''
   \<and> NormalizeVariable demo_env ''%TEMP%/%A%.txt'' = ''C:/Tmp/x y.txt''
   \<and> NormalizeVariable demo_env (NormalizeVariable demo_env ''%TEMP%/%A%.txt'') = ''C:/Tmp/x y.txt''"
proof -
  have n: "placeholder_names ''%TEMP%/%A%.txt'' = [''TEMP'', ''A'']"
    and n': "scan_all_names None ''%TEMP%/%A%.txt'' = [''TEMP'', ''A'']"
    by code_simp+
  have v1: "wdupenv_s demo_env ''TEMP'' = Some ''C:/Tmp''"
    and v2: "wdupenv_s demo_env ''A'' = Some ''x y''"
    by (simp_all add: wdupenv_s_def c_str_def demo_env_def)
  have h: "\<forall>n\<in>set (placeholder_names ''%TEMP%/%A%.txt'').
      \<forall>v. wdupenv_s demo_env n = Some v \<longrightarrow> c_envDelim \<notin> set v"
    using v1 v2 by (auto simp: n c_envDelim_def)
  have h': "\<forall>n\<in>set (scan_all_names None ''%TEMP%/%A%.txt'').
      c_envDelim \<notin> set (GetVariableValue demo_env n)"
    using v1 v2 by (auto simp: n' GetVariableValue_def c_envDelim_def)
  have e: "ExpandEnvVars demo_env ''%TEMP%/%A%.txt'' = ''C:/Tmp/x y.txt''" by code_simp
  have e': "NormalizeVariable demo_env ''%TEMP%/%A%.txt'' = ''C:/Tmp/x y.txt''" by code_simp
  from ExpandEnvVars_second_pass_stable [of "''%TEMP%/%A%.txt''" demo_env] h h'
  have "ExpandEnvVars demo_env (ExpandEnvVars demo_env ''%TEMP%/%A%.txt'')
          = ExpandEnvVars demo_env ''%TEMP%/%A%.txt''"
    and "NormalizeVariable demo_env (NormalizeVariable demo_env ''%TEMP%/%A%.txt'')
          = NormalizeVariable demo_env ''%TEMP%/%A%.txt''"
    by blast+
  with n v1 v2 e e' show ?thesis by simp
qed

subsection \<open>The \<open>path\<close> and \<open>args\<close> lines\<close>

text \<open>
  \<open>GetShimInfo\<close> of src/unnamed/part_000: a line \<open>path = value\<close> (the text of the line
  buffer once its line end is trimmed) sets the path to the expanded value, put between
  double quotes exactly when the expanded value holds a space and does not start with a
  quote. (For a whole file, lemma \<open>GetShimInfo_part0_file\<close>: the last \<open>path\<close> line is
  the one that counts.)
\<close>

lemma path_line_expanded_and_quoted:
  assumes "TrimNewline (c_str linebuf) = ''path = '' @ v"
  shows "path (parse_line_part0 env curDir linebuf info) =
     Some (if CHR '' '' \<in> set (ExpandEnvVars env v) \<and> take 1 (ExpandEnvVars env v) \<noteq> [c_quote]
           then c_quote # ExpandEnvVars env v @ [c_quote]
           else ExpandEnvVars env v)"
proof -
  let ?e = "ExpandEnvVars env v"
  have sp: "find_char ?e CHR '' '' 0 \<noteq> None \<longleftrightarrow> CHR '' '' \<in> set ?e"
    by (simp add: find_char_0_None_iff)
  have q: "(?e = [] \<or> hd ?e \<noteq> c_quote) \<longleftrightarrow> take 1 ?e \<noteq> [c_quote]"
    by (cases ?e) simp_all
  show ?thesis
    by (simp only: parse_line_part0_path [OF assms] sp q) simp
qed

lemma path_line_expanded_and_quoted_example:
  "path (parse_line_part0 demo_env ''C:/apps'' (''path = %TEMP%/my tool.exe'' @ [c_newline]) empty_ShimInfo)
     = Some (c_quote # ''C:/Tmp/my tool.exe'' @ [c_quote])
   \<and> path (parse_line_part0 demo_env ''C:/apps'' (''path = %TEMP%/tool.exe'' @ [c_newline]) empty_ShimInfo)
     = Some ''C:/Tmp/tool.exe''
   \<and> path (parse_line_part0 demo_env ''C:/apps'' (''path = '' @ c_quote # ''%A%/tool.exe'' @ [c_quote]) empty_ShimInfo)
     = Some (c_quote # ''x y/tool.exe'' @ [c_quote])
   \<and> observe (GetShimInfo_part0 demo_os demo_state) =
     Inr (\<lparr>path = Some (c_quote # ''C:/Tmp/my tool.exe'' @ [c_quote]),
           args = Some ''--base C:/apps --again %~dp0'',
           envVars = [(''FOO'', ''bar''), (''BAZ'', ''%FOO%-kim'')]\<rparr>, [])"
proof -
  have t1: "TrimNewline (c_str (''path = %TEMP%/my tool.exe'' @ [c_newline])) = ''path = '' @ ''%TEMP%/my tool.exe''"
    and t2: "TrimNewline (c_str (''path = %TEMP%/tool.exe'' @ [c_newline])) = ''path = '' @ ''%TEMP%/tool.exe''"
    and t3: "TrimNewline (c_str (''path = '' @ c_quote # ''%A%/tool.exe'' @ [c_quote])) = ''path = '' @ c_quote # ''%A%/tool.exe'' @ [c_quote]"
    by (simp_all add: string_eval)
  have e1: "ExpandEnvVars demo_env ''%TEMP%/my tool.exe'' = ''C:/Tmp/my tool.exe''"
    and e2: "ExpandEnvVars demo_env ''%TEMP%/tool.exe'' = ''C:/Tmp/tool.exe''"
    and e3: "ExpandEnvVars demo_env (c_quote # ''%A%/tool.exe'' @ [c_quote]) = c_quote # ''x y/tool.exe'' @ [c_quote]"
    by (simp_all add: ExpandEnvVars_def ExpandEnvVars_loop.simps string_eval demo_eval)
  from path_line_expanded_and_quoted [OF t1, of demo_env "''C:/apps''" empty_ShimInfo]
    path_line_expanded_and_quoted [OF t2, of demo_env "''C:/apps''" empty_ShimInfo]
    path_line_expanded_and_quoted [OF t3, of demo_env "''C:/apps''" empty_ShimInfo]
    e1 e2 e3 demo_GetShimInfo_part0
  show ?thesis by (simp add: c_quote_def)
qed

text \<open>
  C5. The path is to be the expanded value, quoted when it holds a space and does not
  start with a quote. \<open>GetShimInfo\<close> of src/unnamed/part_000 does so (lemma
  \<open>path_line_expanded_and_quoted\<close>). \<open>GetShimInfo\<close> of src/shim.cpp applies the quoting
  rule to the raw value and never expands it: the placeholder reaches \<open>CreateProcessW\<close>
  as it was written in the file.
\<close>

theorem shim_path_line_not_expanded:
  "wdupenv_s demo_env ''TEMP'' = Some ''C:/Tmp''
   \<and> path (parse_line_shim demo_env (''path = %TEMP%/tool.exe'' @ [c_newline]) empty_ShimInfo)
       = Some ''%TEMP%/tool.exe''
   \<and> path (parse_line_part0 demo_env ''C:/apps'' (''path = %TEMP%/tool.exe'' @ [c_newline])
         empty_ShimInfo) = Some ''C:/Tmp/tool.exe''
   \<and> observe (GetShimInfo_shim demo_os demo_state) =
     Inr (\<lparr>path = Some (c_quote # ''%TEMP%/my tool.exe'' @ [c_quote]),
           args = Some ''--base C:/apps --again %~dp0'',
           envVars = [(''FOO'', ''bar''), (''BAZ'', ''-kim'')]\<rparr>, [])
   \<and> observe (GetShimInfo_part0 demo_os demo_state) =
     Inr (\<lparr>path = Some (c_quote # ''C:/Tmp/my tool.exe'' @ [c_quote]),
           args = Some ''--base C:/apps --again %~dp0'',
           envVars = [(''FOO'', ''bar''), (''BAZ'', ''%FOO%-kim'')]\<rparr>, [])"
proof -
  have "wdupenv_s demo_env ''TEMP'' = Some ''C:/Tmp''"
    by (simp add: wdupenv_s_def c_str_def demo_env_def)
  moreover have "path (parse_line_shim demo_env (''path = %TEMP%/tool.exe'' @ [c_newline])
      empty_ShimInfo) = Some ''%TEMP%/tool.exe''"
    by (simp add: parse_line_shim_def string_eval empty_ShimInfo_def)
  moreover have "path (parse_line_part0 demo_env ''C:/apps''
      (''path = %TEMP%/tool.exe'' @ [c_newline]) empty_ShimInfo) = Some ''C:/Tmp/tool.exe''"
    by (simp add: parse_line_part0_def ExpandEnvVars_def ExpandEnvVars_loop.simps string_eval
        demo_eval empty_ShimInfo_def)
  moreover have "observe (GetShimInfo_shim demo_os demo_state) =
     Inr (\<lparr>path = Some (c_quote # ''%TEMP%/my tool.exe'' @ [c_quote]),
           args = Some ''--base C:/apps --again %~dp0'',
           envVars = [(''FOO'', ''bar''), (''BAZ'', ''-kim'')]\<rparr>, [])"
    by (simp add: demo_GetShimInfo_shim_state [OF demo_os_file(1,2)] observe_def
        demo_info_shim_def demo_state_simps)
  ultimately show ?thesis using demo_GetShimInfo_part0 by (intro conjI)
qed

text \<open>
  C8. An \<open>args\<close> value that holds the token \<open>%~dp0\<close> (at some index \<open>j\<close>) has its first
  occurrence, at index \<open>i\<close>, replaced; the text before and after that occurrence,
  further occurrences included, is kept as it is. \<open>NormalizeArgsInPlace\<close> (part_000) and
  \<open>NormalizeArgs\<close> (src/shim.cpp) do so for any directory given, and so does the \<open>args\<close>
  line of part_000. For a whole run of \<open>GetShimInfo\<close> of either file: when the module
  path is \<open>dir\<close>, a separator, a base name without separator and an extension of three
  characters, the file opened is \<open>dir\<close>, the separator, the base name and \<open>shim\<close>; when
  its last \<open>args\<close> line has the value \<open>v\<close>, the args returned are \<open>v\<close> with the first
  token replaced by \<open>dir\<close>, the directory that holds the file.
\<close>

theorem dir_placeholder_replaced_once:
  assumes "take (length c_dirPlaceholder) (drop j v) = c_dirPlaceholder"
  shows "\<exists>i\<le>j. find_str v c_dirPlaceholder = Some i
       \<and> v = take i v @ c_dirPlaceholder @ drop (i + 5) v
       \<and> NormalizeArgsInPlace v curDir = take i v @ curDir @ drop (i + 5) v
       \<and> NormalizeArgs (Some v) curDir = Some (take i v @ curDir @ drop (i + 5) v)
       \<and> (TrimNewline (c_str linebuf) = ''args = '' @ v \<longrightarrow>
            args (parse_line_part0 env curDir linebuf info) =
              Some (take i v @ curDir @ drop (i + 5) v))
       \<and> (os_modulePath os = dir @ sep # base @ ext
            \<and> (sep = c_backslash \<or> sep = CHR ''/'')
            \<and> c_backslash \<notin> set base \<and> CHR ''/'' \<notin> set base \<and> length ext = 3
            \<and> length (os_modulePath os) < MAX_PATH
            \<and> os_wfopen_s os (dir @ sep # base @ ''shim'') = Some stream \<longrightarrow>
          (List.map_filter args_assignment_part0 (stream_lines stream) = vs @ [v] \<longrightarrow>
             (\<exists>r. GetShimInfo_part0 os st = Inr (r, st)
                \<and> args r = Some (take i v @ dir @ drop (i + 5) v)))
          \<and> (List.map_filter args_assignment_shim (stream_lines stream) = ws @ [v] \<longrightarrow>
             (\<exists>r. GetShimInfo_shim os st = Inr (r, st)
                \<and> args r = Some (take i v @ dir @ drop (i + 5) v))))"
proof -
  from dir_placeholder_first [OF assms] obtain i where i: "i \<le> j"
    and f: "find_str v c_dirPlaceholder = Some i"
    and split: "v = take i v @ c_dirPlaceholder @ drop (i + 5) v" by blast
  note n = NormalizeArgs_at [OF f]
  have n3: "TrimNewline (c_str linebuf) = ''args = '' @ v \<longrightarrow>
      args (parse_line_part0 env curDir linebuf info) = Some (take i v @ curDir @ drop (i + 5) v)"
    by (simp add: parse_line_part0_args n(1))
  have n4: "os_modulePath os = dir @ sep # base @ ext
            \<and> (sep = c_backslash \<or> sep = CHR ''/'')
            \<and> c_backslash \<notin> set base \<and> CHR ''/'' \<notin> set base \<and> length ext = 3
            \<and> length (os_modulePath os) < MAX_PATH
            \<and> os_wfopen_s os (dir @ sep # base @ ''shim'') = Some stream \<longrightarrow>
          (List.map_filter args_assignment_part0 (stream_lines stream) = vs @ [v] \<longrightarrow>
             (\<exists>r. GetShimInfo_part0 os st = Inr (r, st)
                \<and> args r = Some (take i v @ dir @ drop (i + 5) v)))
          \<and> (List.map_filter args_assignment_shim (stream_lines stream) = ws @ [v] \<longrightarrow>
             (\<exists>r. GetShimInfo_shim os st = Inr (r, st)
                \<and> args r = Some (take i v @ dir @ drop (i + 5) v)))"
  proof (intro impI, elim conjE, intro conjI impI)
    assume h: "os_modulePath os = dir @ sep # base @ ext"
      "sep = c_backslash \<or> sep = CHR ''/''"
      "c_backslash \<notin> set base" "CHR ''/'' \<notin> set base" "length ext = 3"
      "length (os_modulePath os) < MAX_PATH"
      "os_wfopen_s os (dir @ sep # base @ ''shim'') = Some stream"
    note G = GetShimInfo_args_directory [OF h]
    show "\<exists>r. GetShimInfo_part0 os st = Inr (r, st)
                \<and> args r = Some (take i v @ dir @ drop (i + 5) v)"
      if "List.map_filter args_assignment_part0 (stream_lines stream) = vs @ [v]"
      using G(1) [OF that, of st] by (simp only: n(1) [of dir])
    show "\<exists>r. GetShimInfo_shim os st = Inr (r, st)
                \<and> args r = Some (take i v @ dir @ drop (i + 5) v)"
      if "List.map_filter args_assignment_shim (stream_lines stream) = ws @ [v]"
      using G(2) [OF that, of st] by (simp only: n(2) [of dir])
  qed
  from i f split n [of curDir] n3 n4 show ?thesis by blast
qed

theorem dir_placeholder_replaced_once_witness:
  "find_str ''--base %~dp0 --again %~dp0'' c_dirPlaceholder = Some 7
   \<and> NormalizeArgsInPlace ''--base %~dp0 --again %~dp0'' ''C:/apps'' = ''--base C:/apps --again %~dp0''
   \<and> NormalizeArgs (Some ''--base %~dp0 --again %~dp0'') ''C:/apps'' = Some ''--base C:/apps --again %~dp0''
   \<and> args (parse_line_part0 demo_env ''C:/apps'' (''args = --base %~dp0 --again %~dp0'' @ [c_newline])
         empty_ShimInfo) = Some ''--base C:/apps --again %~dp0''
   \<and> os_modulePath demo_os = ''C:/apps/tool.exe''
   \<and> os_wfopen_s demo_os ''C:/apps/tool.shim'' = Some demo_shim_text
   \<and> (\<exists>r. GetShimInfo_part0 demo_os demo_state = Inr (r, demo_state)
        \<and> args r = Some ''--base C:/apps --again %~dp0'')
   \<and> (\<exists>r. GetShimInfo_shim demo_os demo_state = Inr (r, demo_state)
        \<and> args r = Some ''--base C:/apps --again %~dp0'')"
proof -
  let ?v = "''--base %~dp0 --again %~dp0''"
  let ?r = "\<lambda>i d. take i ?v @ d @ drop (i + 5) ?v"
  have h: "take (length c_dirPlaceholder) (drop 21 ?v) = c_dirPlaceholder"
    by (simp add: c_dirPlaceholder_def)
  have t: "TrimNewline (c_str (''args = --base %~dp0 --again %~dp0'' @ [c_newline]))
      = ''args = '' @ ?v"
    by (simp add: string_eval)
  have f: "find_str ?v c_dirPlaceholder = Some 7"
    by (simp add: c_dirPlaceholder_def)
  have m: "os_modulePath demo_os = ''C:/apps'' @ CHR ''/'' # ''tool.'' @ ''exe''"
    and o: "os_wfopen_s demo_os (''C:/apps'' @ CHR ''/'' # ''tool.'' @ ''shim'') = Some demo_shim_text"
    and l: "length (os_modulePath demo_os) < MAX_PATH"
    by (simp_all add: demo_os_def MAX_PATH_def)
  have b: "CHR ''/'' = c_backslash \<or> CHR ''/'' = CHR ''/''"
    "c_backslash \<notin> set ''tool.''" "CHR ''/'' \<notin> set ''tool.''" "length ''exe'' = 3"
    by (simp_all add: c_backslash_def)
  from dir_placeholder_replaced_once [OF h, where curDir = "''C:/apps''"
      and linebuf = "''args = --base %~dp0 --again %~dp0'' @ [c_newline]" and env = demo_env
      and info = empty_ShimInfo and os = demo_os and dir = "''C:/apps''" and sep = "CHR ''/''"
      and base = "''tool.''" and ext = "''exe''" and stream = demo_shim_text
      and vs = "[]" and ws = "[]" and st = demo_state]
    t m o l b demo_args_lines
  obtain i where "find_str ?v c_dirPlaceholder = Some i"
    and 1: "NormalizeArgsInPlace ?v ''C:/apps'' = ?r i ''C:/apps''"
    and 2: "NormalizeArgs (Some ?v) ''C:/apps'' = Some (?r i ''C:/apps'')"
    and 3: "args (parse_line_part0 demo_env ''C:/apps''
              (''args = --base %~dp0 --again %~dp0'' @ [c_newline]) empty_ShimInfo)
            = Some (?r i ''C:/apps'')"
    and 4: "\<exists>r. GetShimInfo_part0 demo_os demo_state = Inr (r, demo_state)
        \<and> args r = Some (?r i ''C:/apps'')"
    and 5: "\<exists>r. GetShimInfo_shim demo_os demo_state = Inr (r, demo_state)
        \<and> args r = Some (?r i ''C:/apps'')"
    by blast
  with f have i: "i = 7" by simp
  have r: "?r 7 ''C:/apps'' = ''--base C:/apps --again %~dp0''" by simp
  have mo: "os_modulePath demo_os = ''C:/apps/tool.exe''"
    "os_wfopen_s demo_os ''C:/apps/tool.shim'' = Some demo_shim_text"
    by (simp_all add: demo_os_def)
  from f mo 1 2 3 4 5 show ?thesis by (simp only: i r)
qed

subsection \<open>A sidecar file that cannot be opened\<close>

lemma GetShimInfo_part0_unopenable:
  assumes "3 \<le> length (os_modulePath os)" and "length (os_modulePath os) < MAX_PATH"
    and "os_wfopen_s os (shim_file_name (os_modulePath os) (length (os_modulePath os))) = None"
  shows "GetShimInfo_part0 os st =
           Inr (\<lparr>path = None, args = None, envVars = []\<rparr>, log_event (Stderr ErrCannotOpen) st)"
  using assms
  by (simp add: GetShimInfo_part0_def GetModuleFileNameW_fits empty_ShimInfo_def)

lemma GetShimInfo_shim_unopenable:
  assumes "3 \<le> length (os_modulePath os)" and "length (os_modulePath os) < MAX_PATH"
    and "os_wfopen_s os (shim_file_name (os_modulePath os) (length (os_modulePath os))) = None"
  shows "GetShimInfo_shim os st =
           Inr (\<lparr>path = None, args = None, envVars = []\<rparr>, log_event (Stderr ErrCannotOpen) st)"
  using assms
  by (simp add: GetShimInfo_shim_def GetModuleFileNameW_fits)

text \<open>
  C3. When the sidecar file cannot be opened, \<open>GetShimInfo\<close> returns a \<open>ShimInfo\<close>
  without path and without args, and \<open>wmain\<close> returns 1; the only calls made are the two
  messages on the error stream, so no process is created. Both shims behave so. (The
  path of the executable is one that \<open>GetShimInfo\<close> can turn into the name of the
  sidecar file: at least three characters, fewer than \<open>MAX_PATH\<close>.)
\<close>

theorem unopenable_sidecar_exits_1:
  assumes "3 \<le> length (os_modulePath os)" and "length (os_modulePath os) < MAX_PATH"
    and "os_wfopen_s os (shim_file_name (os_modulePath os) (length (os_modulePath os))) = None"
  shows "GetShimInfo_part0 os st =
           Inr (\<lparr>path = None, args = None, envVars = []\<rparr>, log_event (Stderr ErrCannotOpen) st)
       \<and> wmain_part0 os st =
           Inr (1, log_event (Stderr ErrCouldNotRead) (log_event (Stderr ErrCannotOpen) st))
       \<and> GetShimInfo_shim os st =
           Inr (\<lparr>path = None, args = None, envVars = []\<rparr>, log_event (Stderr ErrCannotOpen) st)
       \<and> wmain_shim os st =
           Inr (1, log_event (Stderr ErrCouldNotRead) (log_event (Stderr ErrCannotOpen) st))
       \<and> trace (log_event (Stderr ErrCouldNotRead) (log_event (Stderr ErrCannotOpen) st)) =
           trace st @ [Stderr ErrCannotOpen, Stderr ErrCouldNotRead]
       \<and> filter is_create (trace (log_event (Stderr ErrCouldNotRead)
             (log_event (Stderr ErrCannotOpen) st))) = filter is_create (trace st)"
  by (simp add: GetShimInfo_part0_unopenable [OF assms] GetShimInfo_shim_unopenable [OF assms]
      wmain_part0_def wmain_shim_def trace_log_event event_kind_simps)

theorem unopenable_sidecar_exits_1_witness:
  "observe (GetShimInfo_part0 (demo_os\<lparr>os_wfopen_s := \<lambda>f. None\<rparr>) demo_state) =
     Inr (\<lparr>path = None, args = None, envVars = []\<rparr>, [Stderr ErrCannotOpen])
   \<and> observe (wmain_part0 (demo_os\<lparr>os_wfopen_s := \<lambda>f. None\<rparr>) demo_state) =
     Inr (1, [Stderr ErrCannotOpen, Stderr ErrCouldNotRead])
   \<and> observe (wmain_shim (demo_os\<lparr>os_wfopen_s := \<lambda>f. None\<rparr>) demo_state) =
     Inr (1, [Stderr ErrCannotOpen, Stderr ErrCouldNotRead])"
proof -
  let ?os = "demo_os\<lparr>os_wfopen_s := \<lambda>f. None\<rparr>"
  have h1: "3 \<le> length (os_modulePath ?os)"
    and h2: "length (os_modulePath ?os) < MAX_PATH"
    and h3: "os_wfopen_s ?os (shim_file_name (os_modulePath ?os) (length (os_modulePath ?os))) = None"
    by (simp_all add: demo_os_def MAX_PATH_def)
  from unopenable_sidecar_exits_1 [OF h1 h2 h3, of demo_state]
  show ?thesis
    by (simp add: observe_def trace_log_event demo_state_def)
qed

subsection \<open>The argument tail\<close>

text \<open>
  The text appended to the configured args is the raw command line from the index
  \<open>length argv0 + 2\<close> on when the command line starts with a quote, from the index
  \<open>length argv0\<close> on otherwise, as long as that index lies within the command line. So
  for a command line made of the quoted program name and a tail, or of the bare program
  name and a tail, the tail is appended as it is. The command line that \<open>wmain\<close> of
  either shim passes to \<open>CreateProcessW\<close> is the path, a space and that text.
\<close>

lemma command_tail_appended_verbatim:
  "(length prog + (if take 1 cmd = [c_quote] then 2 else 0) \<le> length cmd \<longrightarrow>
      append_command_tail a cmd prog =
        Inr (a @ drop (length prog + (if take 1 cmd = [c_quote] then 2 else 0)) cmd))
   \<and> append_command_tail a (c_quote # prog @ c_quote # tail) prog = Inr (a @ tail)
   \<and> (take 1 (prog @ tail) \<noteq> [c_quote] \<longrightarrow>
        append_command_tail a (prog @ tail) prog = Inr (a @ tail))
   \<and> (GetShimInfo_part0 os st = Inr (info, sta) \<and> path info = Some p
        \<and> append_command_tail (case args info of Some a \<Rightarrow> a | None \<Rightarrow> [])
             (os_commandLine os) (os_argv0 os) = Inr r \<longrightarrow>
        (\<exists>code st'. wmain_part0 os st = Inr (code, st')
           \<and> EvCreateProcessW (p @ CHR '' '' # r) \<in> set (trace st')))
   \<and> (GetShimInfo_shim os st = Inr (info', sta') \<and> path info' = Some p'
        \<and> append_command_tail (case args info' of Some a \<Rightarrow> a | None \<Rightarrow> [])
             (os_commandLine os) (os_argv0 os) = Inr r' \<and> length p' < MAX_PATH \<longrightarrow>
        (\<exists>code st'. wmain_shim os st = Inr (code, st')
           \<and> EvCreateProcessW (p' @ CHR '' '' # r') \<in> set (trace st')))"
proof -
  have 1: "length prog + (if take 1 cmd = [c_quote] then 2 else 0) \<le> length cmd \<longrightarrow>
      append_command_tail a cmd prog =
        Inr (a @ drop (length prog + (if take 1 cmd = [c_quote] then 2 else 0)) cmd)"
    by (cases cmd) (auto simp: append_command_tail_def Let_def)
  show ?thesis
    using 1 append_command_tail_quoted [of a prog tail] append_command_tail_plain [of prog tail a]
      wmain_part0_command_line [of os st info sta p r]
      wmain_shim_command_line [of os st info' sta' p' r']
    by blast
qed


lemma command_tail_appended_verbatim_example:
  "append_command_tail ''--base C:/apps --again %~dp0''
       (c_quote # ''C:/apps/tool'' @ c_quote # '' '' @ c_quote # ''an arg'' @ c_quote # ''  x'')
       ''C:/apps/tool''
     = Inr (''--base C:/apps --again %~dp0'' @ '' '' @ c_quote # ''an arg'' @ c_quote # ''  x'')
   \<and> append_command_tail ''-v'' ''tool.exe  a   b'' ''tool.exe'' = Inr ''-v  a   b''
   \<and> (\<exists>code st'. wmain_part0 demo_os demo_state = Inr (code, st')
        \<and> EvCreateProcessW
             ((c_quote # ''C:/Tmp/my tool.exe'' @ [c_quote]) @ CHR '' '' #
              ''--base C:/apps --again %~dp0'' @ '' '' @ c_quote # ''an arg'' @ c_quote # ''  x'')
           \<in> set (trace st'))
   \<and> (\<exists>code st'. wmain_shim demo_os demo_state = Inr (code, st')
        \<and> EvCreateProcessW
             ((c_quote # ''%TEMP%/my tool.exe'' @ [c_quote]) @ CHR '' '' #
              ''--base C:/apps --again %~dp0'' @ '' '' @ c_quote # ''an arg'' @ c_quote # ''  x'')
           \<in> set (trace st'))"
proof -
  let ?tail = "'' '' @ c_quote # ''an arg'' @ c_quote # ''  x''"
  let ?a = "''--base C:/apps --again %~dp0''"
  let ?p = "c_quote # ''C:/Tmp/my tool.exe'' @ [c_quote]"
  let ?p' = "c_quote # ''%TEMP%/my tool.exe'' @ [c_quote]"
  note G = demo_GetShimInfo_part0_state [OF demo_os_file(1,2)]
  note G' = demo_GetShimInfo_shim_state [OF demo_os_file(1,2)]
  have P: "path demo_info_part0 = Some ?p" and A: "args demo_info_part0 = Some ?a"
    and P': "path demo_info_shim = Some ?p'" and A': "args demo_info_shim = Some ?a"
    by (simp_all add: demo_info_part0_def demo_info_shim_def)
  have C: "os_commandLine demo_os = c_quote # os_argv0 demo_os @ c_quote # ?tail"
    and Z: "os_argv0 demo_os = ''C:/apps/tool''"
    by (simp_all add: demo_os_def)
  have L: "length ?p' < MAX_PATH" by (simp add: MAX_PATH_def)
  have N: "take 1 (''tool.exe'' @ ''  a   b'') \<noteq> [c_quote]" by (simp add: c_quote_def)
  note inst = command_tail_appended_verbatim [where prog = "''tool.exe''" and tail = "''  a   b''"
      and a = "''-v''" and os = demo_os and st = demo_state and info = demo_info_part0
      and sta = demo_state and p = ?p and r = "?a @ ?tail" and info' = demo_info_shim
      and sta' = demo_state and p' = ?p' and r' = "?a @ ?tail"]
  have T: "append_command_tail ?a (os_commandLine demo_os) (os_argv0 demo_os) = Inr (?a @ ?tail)"
    by (simp only: C) (rule append_command_tail_quoted)
  from inst N G G' P P' A A' T L
  have "append_command_tail ''-v'' (''tool.exe'' @ ''  a   b'') ''tool.exe'' = Inr (''-v'' @ ''  a   b'')"
    and "\<exists>code st'. wmain_part0 demo_os demo_state = Inr (code, st')
           \<and> EvCreateProcessW (?p @ CHR '' '' # ?a @ ?tail) \<in> set (trace st')"
    and "\<exists>code st'. wmain_shim demo_os demo_state = Inr (code, st')
           \<and> EvCreateProcessW (?p' @ CHR '' '' # ?a @ ?tail) \<in> set (trace st')"
    by simp_all
  moreover from T C Z have "append_command_tail ?a
       (c_quote # ''C:/apps/tool'' @ c_quote # ?tail) ''C:/apps/tool'' = Inr (?a @ ?tail)"
    by simp
  ultimately show ?thesis by simp
qed

text \<open>
  C6. The text after the portion that names the shim is to be appended, for every raw
  command line. Neither \<open>wmain\<close> checks that the index \<open>length argv0 + 2\<close> lies within
  the command line. For a command line whose leading quote is never closed, such as
  \<open>"C:/apps/tool\<close> with \<open>argv[0]\<close> = \<open>C:/apps/tool\<close>, the portion that names the shim is
  the whole command line and the text to append is empty; the index is one past the
  terminator, and both shims read outside the string.
\<close>

theorem command_tail_unclosed_quote_overrun:
  "os_commandLine demo_cut_os = c_quote # ''C:/apps/tool''
   \<and> os_argv0 demo_cut_os = ''C:/apps/tool''
   \<and> length (os_argv0 demo_cut_os) + 2 = Suc (length (os_commandLine demo_cut_os))
   \<and> append_command_tail ''--base C:/apps --again %~dp0''
        (os_commandLine demo_cut_os) (os_argv0 demo_cut_os) = Inl OutOfBounds
   \<and> wmain_part0 demo_cut_os demo_state = Inl OutOfBounds
   \<and> wmain_shim demo_cut_os demo_state = Inl OutOfBounds"
proof -
  have c: "os_commandLine demo_cut_os = c_quote # ''C:/apps/tool''"
    and z: "os_argv0 demo_cut_os = ''C:/apps/tool''"
    by (simp_all add: demo_cut_os_def demo_os_def)
  have t: "append_command_tail ''--base C:/apps --again %~dp0''
        (os_commandLine demo_cut_os) (os_argv0 demo_cut_os) = Inl OutOfBounds"
    by (simp add: c z append_command_tail_def)
  have 1: "wmain_part0 demo_cut_os demo_state = Inl OutOfBounds"
    by (simp only: wmain_part0_def demo_GetShimInfo_part0_state [OF demo_cut_os_file])
       (simp add: demo_info_part0_def t)
  have 2: "wmain_shim demo_cut_os demo_state = Inl OutOfBounds"
    by (simp only: wmain_shim_def demo_GetShimInfo_shim_state [OF demo_cut_os_file])
       (simp add: demo_info_shim_def t)
  from c z t 1 2 show ?thesis by simp
qed

subsection \<open>Waiting and the exit code\<close>

text \<open>
  C2. When the target is a console application (\<open>isWindowsApp\<close> is false), a process
  handle was obtained and \<open>GetExitCodeProcess\<close> reports the exit code \<open>N\<close> of the child
  after the wait, \<open>wmain\<close> returns \<open>N\<close> converted to \<open>int\<close>, and the exit code of the
  shim process is \<open>N\<close>. Both shims behave so. The hypotheses name the results of the
  steps of \<open>wmain\<close> that lead to the wait.
\<close>

theorem console_exit_code_propagated:
  "(GetShimInfo_part0 os st = Inr (info, sta) \<and> path info = Some p
      \<and> append_command_tail (case args info of Some a \<Rightarrow> a | None \<Rightarrow> [])
           (os_commandLine os) (os_argv0 os) = Inr r
      \<and> wmain_setup_part0 os p sta = (False, job, stb)
      \<and> MakeProcess_part0 os (info\<lparr>args := Some r\<rparr>) stb = ((hp, ht), stc)
      \<and> hp \<noteq> 0 \<and> os_GetExitCodeProcess os hp = Some N \<longrightarrow>
      (\<exists>st'. wmain_part0 os st = Inr (sint N, st')
         \<and> trace st' = trace stc @ [EvAssignProcessToJobObject job hp,
               EvWaitForSingleObject hp, EvGetExitCodeProcess hp]
         \<and> process_exit_code (sint N) = N))
   \<and> (GetShimInfo_shim os st = Inr (info', sta') \<and> path info' = Some p'
      \<and> append_command_tail (case args info' of Some a \<Rightarrow> a | None \<Rightarrow> [])
           (os_commandLine os) (os_argv0 os) = Inr r'
      \<and> exeType_shim os p' = Inr ret
      \<and> wmain_setup_shim os ret sta' = (False, job', stb')
      \<and> MakeProcess_shim os (info'\<lparr>args := Some r'\<rparr>) stb' = Inr ((hp', ht'), stc')
      \<and> hp' \<noteq> 0 \<and> os_GetExitCodeProcess os hp' = Some N' \<longrightarrow>
      (\<exists>st'. wmain_shim os st = Inr (sint N', st')
         \<and> trace st' = trace stc' @ [EvAssignProcessToJobObject job' hp',
               EvWaitForSingleObject hp', EvGetExitCodeProcess hp']
         \<and> process_exit_code (sint N') = N'))"
  using wmain_part0_exit_code [of os st info sta p r False job stb hp ht stc N]
    wmain_shim_exit_code [of os st info' sta' p' r' ret job' stb' hp' ht' stc' N']
  by blast



theorem console_exit_code_propagated_witness:
  "(\<exists>st'. wmain_part0 demo_os demo_state = Inr (3, st')
       \<and> EvWaitForSingleObject 11 \<in> set (trace st'))
   \<and> (\<exists>st'. wmain_shim demo_os demo_state = Inr (3, st')
       \<and> EvWaitForSingleObject 11 \<in> set (trace st'))
   \<and> process_exit_code 3 = 3"
proof -
  let ?a = "''--base C:/apps --again %~dp0''"
  let ?r = "?a @ '' '' @ c_quote # ''an arg'' @ c_quote # ''  x''"
  let ?p = "c_quote # ''C:/Tmp/my tool.exe'' @ [c_quote]"
  let ?p' = "c_quote # ''%TEMP%/my tool.exe'' @ [c_quote]"
  note G = demo_GetShimInfo_part0_state [OF demo_os_file(1,2)]
  note G' = demo_GetShimInfo_shim_state [OF demo_os_file(1,2)]
  have P: "path demo_info_part0 = Some ?p" and A: "args demo_info_part0 = Some ?a"
    and P': "path demo_info_shim = Some ?p'" and A': "args demo_info_shim = Some ?a"
    by (simp_all add: demo_info_part0_def demo_info_shim_def)
  have T: "append_command_tail (case args demo_info_part0 of Some a \<Rightarrow> a | None \<Rightarrow> [])
      (os_commandLine demo_os) (os_argv0 demo_os) = Inr ?r"
    and T': "append_command_tail (case args demo_info_shim of Some a \<Rightarrow> a | None \<Rightarrow> [])
      (os_commandLine demo_os) (os_argv0 demo_os) = Inr ?r"
    by (simp_all only: A A' option.case demo_tail)
  obtain w job stb where S0: "wmain_setup_part0 demo_os ?p demo_state = (w, job, stb)"
    by (cases "wmain_setup_part0 demo_os ?p demo_state")
  from wmain_setup_part0_effect [OF S0]
  have "w = (HIWORD (exeType_part0 demo_os ?p) \<noteq> 0)" by blast
  then have "w = False"
    by (simp only: demo_exeType demo_HIWORD) simp
  with S0 have S: "wmain_setup_part0 demo_os ?p demo_state = (False, job, stb)" by simp
  obtain hs stc where M0: "MakeProcess_part0 demo_os (demo_info_part0\<lparr>args := Some ?r\<rparr>) stb = (hs, stc)"
    by (cases "MakeProcess_part0 demo_os (demo_info_part0\<lparr>args := Some ?r\<rparr>) stb")
  from P have Pr: "path (demo_info_part0\<lparr>args := Some ?r\<rparr>) = Some ?p" by simp
  from MakeProcess_part0_created [OF Pr demo_os_launch(1), of stb] M0
  have M: "MakeProcess_part0 demo_os (demo_info_part0\<lparr>args := Some ?r\<rparr>) stb = ((11, 12), stc)"
    by simp
  obtain w' job' stb' where S0': "wmain_setup_shim demo_os 0 demo_state = (w', job', stb')"
    by (cases "wmain_setup_shim demo_os 0 demo_state")
  from wmain_setup_shim_effect [OF S0']
  have "w' = (HIWORD 0 \<noteq> 0)" by blast
  then have "w' = False"
    by (simp only: demo_HIWORD) simp
  with S0' have S': "wmain_setup_shim demo_os 0 demo_state = (False, job', stb')" by simp
  from P' have Pr': "path (demo_info_shim\<lparr>args := Some ?r\<rparr>) = Some ?p'"
    and Ar': "args (demo_info_shim\<lparr>args := Some ?r\<rparr>) = Some ?r" by simp_all
  from MakeProcess_shim_created [OF Pr' Ar' demo_os_launch(1), of stb']
  obtain stc' where M': "MakeProcess_shim demo_os (demo_info_shim\<lparr>args := Some ?r\<rparr>) stb'
      = Inr ((11, 12), stc')" by blast
  have H: "(11::nat) \<noteq> 0" by simp
  note inst = console_exit_code_propagated [where os = demo_os and st = demo_state
      and info = demo_info_part0 and sta = demo_state and p = ?p and r = ?r and job = job
      and stb = stb and hp = 11 and ht = 12 and stc = stc and N = 3
      and info' = demo_info_shim and sta' = demo_state and p' = ?p' and r' = ?r and ret = 0
      and job' = job' and stb' = stb' and hp' = 11 and ht' = 12 and stc' = stc' and N' = 3]
  from inst G P T S M H demo_os_launch(2)
  have 1: "\<exists>st'. wmain_part0 demo_os demo_state = Inr (sint (3 :: 32 word), st')
         \<and> trace st' = trace stc @ [EvAssignProcessToJobObject job 11,
               EvWaitForSingleObject 11, EvGetExitCodeProcess 11]
         \<and> process_exit_code (sint (3 :: 32 word)) = 3"
    by blast
  from inst G' P' T' demo_exeType(2) S' M' H demo_os_launch(2)
  have 2: "\<exists>st'. wmain_shim demo_os demo_state = Inr (sint (3 :: 32 word), st')
         \<and> trace st' = trace stc' @ [EvAssignProcessToJobObject job' 11,
               EvWaitForSingleObject 11, EvGetExitCodeProcess 11]
         \<and> process_exit_code (sint (3 :: 32 word)) = 3"
    by blast
  have s3: "sint (3 :: 32 word) = 3" by simp
  from 1 2 show ?thesis
    by (auto simp: s3)
qed

subsection \<open>Parsing and the environment\<close>




subsection \<open>Windowed targets\<close>

text \<open>
  C1. With a target classified as a windowed application and a process handle obtained,
  \<open>wmain\<close> of src/shim.cpp returns 0 and makes no call of \<open>WaitForSingleObject\<close>
  (lemma \<open>wmain_shim_windowed\<close>). \<open>wmain\<close> of src/unnamed/part_000 does not look at
  \<open>isWindowsApp\<close> after \<open>FreeConsole\<close>: it waits for every child and returns its exit
  code (lemma \<open>wmain_part0_always_waits\<close>). On the example system, whose target is
  windowed and whose child exits with code 3, the shim of part_000 waits and returns 3,
  the shim of src/shim.cpp returns 0 without waiting.
\<close>

theorem windowed_target_part0_waits:
  "fst (wmain_setup_part0 demo_gui_os (c_quote # ''C:/Tmp/my tool.exe'' @ [c_quote]) demo_state)
   \<and> observe (wmain_part0 demo_gui_os demo_state) =
     Inr (3, [EvFreeConsole, EvCreateJobObject, EvSetInformationJobObject 7,
              EvPutEnv ''FOO'' ''bar'', EvPutEnv ''BAZ'' ''%FOO%-kim'',
              EvCreateProcessW
                (c_quote # ''C:/Tmp/my tool.exe'' @ c_quote #
                 '' --base C:/apps --again %~dp0 '' @ c_quote # ''an arg'' @ c_quote # ''  x''),
              EvResumeThread 12, EvSetConsoleCtrlHandler,
              EvAssignProcessToJobObject 7 11, EvWaitForSingleObject 11,
              EvGetExitCodeProcess 11])
   \<and> observe (wmain_shim demo_gui_os demo_state) =
     Inr (0, [EvFreeConsole, EvCreateJobObject, EvSetInformationJobObject 7,
              EvPutEnv ''FOO'' ''bar'', EvPutEnv ''BAZ'' ''-kim'',
              EvCreateProcessW
                (c_quote # ''%TEMP%/my tool.exe'' @ c_quote #
                 '' --base C:/apps --again %~dp0 '' @ c_quote # ''an arg'' @ c_quote # ''  x''),
              EvResumeThread 12, EvSetConsoleCtrlHandler])"
proof -
  have "fst (wmain_setup_part0 demo_gui_os (c_quote # ''C:/Tmp/my tool.exe'' @ [c_quote]) demo_state)"
    by (simp only: wmain_setup_part0_def Let_def demo_exeType(3) demo_HIWORD fst_conv) simp
  with demo_wmain_part0_gui demo_wmain_shim_gui show ?thesis by (intro conjI)
qed

end
